theory Spec2Isabelle
  imports Complex_Main
begin

section \<open>Python values: text, exceptions, JSON documents\<close>

text \<open>
  A Python \<open>str\<close> is a sequence of Unicode code points; it is modelled as a list of
  natural numbers, one per code point. \<open>str ''abc''\<close> writes an ASCII literal.
\<close>

type_synonym pystr = "nat list"

abbreviation str :: "string \<Rightarrow> pystr" where
  "str cs \<equiv> map of_char cs"

text \<open>
  Exceptions are values: the class of the exception and its message (\<open>str(e)\<close>).
  Only subclasses of \<open>Exception\<close> are modelled. The classes listed are the ones the
  repository names or that the libraries it calls raise on the paths modelled here;
  \<open>OtherError\<close> stands for any further subclass of \<open>Exception\<close>.
  \<open>HTTPException\<close> is FastAPI's exception; it is raised by the handler only and is
  kept apart in the type \<open>exn\<close>.
\<close>

datatype exc_class =
    JSONDecodeError | AttributeError | ValueError | RecursionError
  | ValidationError | OSError | OtherError

datatype pyexc = Exc exc_class pystr

datatype exn = HTTPException nat pystr | Raised pyexc

text \<open>
  What \<open>json.loads\<close> returns. An integer literal becomes a Python \<open>int\<close>; a literal
  with a fraction or an exponent becomes a \<open>float\<close>, kept here as the text handed to
  \<open>float()\<close> (\<open>NaN\<close>, \<open>Infinity\<close> and \<open>-Infinity\<close> included), since the model
  never computes with it. A JSON object becomes a \<open>dict\<close>: keys in order of first
  insertion, the last value of a repeated key.
\<close>

datatype json =
    JNull
  | JBool bool
  | JInt int
  | JFloat pystr
  | JString pystr
  | JArray "json list"
  | JObject "(pystr \<times> json) list"

text \<open>
  The two interpreter limits that \<open>json.loads\<close> runs into: the number of nested
  calls still allowed when decoding starts (\<open>sys.getrecursionlimit()\<close> minus the
  frames in use) and the longest decimal integer literal \<open>int()\<close> converts
  (\<open>sys.get_int_max_str_digits()\<close>, 0 for no limit).
\<close>

record interp =
  max_depth :: nat
  max_str_digits :: nat

definition default_interp :: interp where
  "default_interp = \<lparr>max_depth = 1000, max_str_digits = 4300\<rparr>"

section \<open>The regular expressions of \<open>parse_objects_from_response\<close>\<close>

text \<open>
  The two patterns use literals, one capture group, and greedy and lazy stars over a
  character class. A pattern is a list of such items; \<open>rx_match\<close> is the backtracking
  matcher of \<open>re\<close>: a greedy star tries the longer repetition first, a lazy star the
  shorter one, and the first alternative that lets the rest of the pattern match wins.
  The result lists the text still unread at each group boundary and at the end.
\<close>

datatype cclass = Space | Dot

datatype item = Chr nat | StarGreedy cclass | StarLazy cclass | GroupOpen | GroupClose

definition is_space :: "nat \<Rightarrow> bool" where
  \<comment> \<open>\<open>\s\<close> on a \<open>str\<close> pattern: the code points for which \<open>str.isspace\<close> holds.\<close>
  "is_space c \<longleftrightarrow>
     (9 \<le> c \<and> c \<le> 13) \<or> (28 \<le> c \<and> c \<le> 32) \<or> c = 133 \<or> c = 160 \<or> c = 5760 \<or>
     (8192 \<le> c \<and> c \<le> 8202) \<or> c = 8232 \<or> c = 8233 \<or> c = 8239 \<or> c = 8287 \<or> c = 12288"

fun in_class :: "bool \<Rightarrow> cclass \<Rightarrow> nat \<Rightarrow> bool" where
  "in_class dotall Space c = is_space c"
| "in_class dotall Dot c = (dotall \<or> c \<noteq> 10)"
  \<comment> \<open>\<open>.\<close> matches anything but a newline, and the newline too under \<open>re.DOTALL\<close>.\<close>

fun rx_match :: "bool \<Rightarrow> item list \<Rightarrow> pystr \<Rightarrow> pystr list option" where
  "rx_match f [] s = Some [s]"
| "rx_match f (Chr c # ps) [] = None"
| "rx_match f (Chr c # ps) (x # xs) = (if x = c then rx_match f ps xs else None)"
| "rx_match f (GroupOpen # ps) s = map_option ((#) s) (rx_match f ps s)"
| "rx_match f (GroupClose # ps) s = map_option ((#) s) (rx_match f ps s)"
| "rx_match f (StarGreedy k # ps) [] = rx_match f ps []"
| "rx_match f (StarGreedy k # ps) (x # xs) =
     (if in_class f k x then
        (case rx_match f (StarGreedy k # ps) xs of
           Some m \<Rightarrow> Some m
         | None \<Rightarrow> rx_match f ps (x # xs))
      else rx_match f ps (x # xs))"
| "rx_match f (StarLazy k # ps) [] = rx_match f ps []"
| "rx_match f (StarLazy k # ps) (x # xs) =
     (case rx_match f ps (x # xs) of
        Some m \<Rightarrow> Some m
      | None \<Rightarrow> if in_class f k x then rx_match f (StarLazy k # ps) xs else None)"

text \<open>
  \<open>re.search\<close>: the match at the leftmost position where the pattern matches. The
  result is the text from that position on, followed by the marks of \<open>rx_match\<close>.
\<close>

fun re_search :: "bool \<Rightarrow> item list \<Rightarrow> pystr \<Rightarrow> pystr list option" where
  "re_search f ps [] = map_option ((#) []) (rx_match f ps [])"
| "re_search f ps (x # xs) =
     (case rx_match f ps (x # xs) of
        Some m \<Rightarrow> Some ((x # xs) # m)
      | None \<Rightarrow> re_search f ps xs)"

definition between :: "pystr \<Rightarrow> pystr \<Rightarrow> pystr" where
  \<comment> \<open>the text read between two marks: \<open>b\<close> is a suffix of \<open>a\<close>\<close>
  "between a b = take (length a - length b) a"

text \<open>\<open>r"```json\s*(\[.*?\])\s*```"\<close>, searched with \<open>re.DOTALL\<close>; 96 is the backtick.\<close>

definition fence_pattern :: "item list" where
  "fence_pattern =
     map Chr (str ''```json'') @
     [StarGreedy Space, GroupOpen, Chr 91, StarLazy Dot, Chr 93, GroupClose,
      StarGreedy Space, Chr 96, Chr 96, Chr 96]"

text \<open>\<open>r"\[.*?\]"\<close>, searched without flags.\<close>

definition bare_pattern :: "item list" where
  "bare_pattern = [Chr 91, StarLazy Dot, Chr 93]"

definition search_fence :: "pystr \<Rightarrow> pystr option" where
  \<comment> \<open>\<open>re.search(fence, text, re.DOTALL)\<close>, giving \<open>group(1)\<close> of the match\<close>
  "search_fence t =
     (case re_search True fence_pattern t of
        Some [start, opn, cls, fin] \<Rightarrow> Some (between opn cls)
      | _ \<Rightarrow> None)"

definition search_bare :: "pystr \<Rightarrow> pystr option" where
  \<comment> \<open>\<open>re.search(bare, text)\<close>, giving \<open>group(0)\<close> of the match\<close>
  "search_bare t =
     (case re_search False bare_pattern t of
        Some [start, fin] \<Rightarrow> Some (between start fin)
      | _ \<Rightarrow> None)"

section \<open>\<open>json.loads\<close>\<close>

definition json_error :: "pystr \<Rightarrow> pyexc" where
  "json_error msg = Exc JSONDecodeError msg"

definition is_json_ws :: "nat \<Rightarrow> bool" where
  "is_json_ws c \<longleftrightarrow> c = 32 \<or> c = 9 \<or> c = 10 \<or> c = 13"

definition skip_ws :: "pystr \<Rightarrow> pystr" where
  "skip_ws s = dropWhile is_json_ws s"

definition is_digit :: "nat \<Rightarrow> bool" where
  "is_digit c \<longleftrightarrow> 48 \<le> c \<and> c \<le> 57"

definition hexval :: "nat \<Rightarrow> nat option" where
  "hexval c =
     (if 48 \<le> c \<and> c \<le> 57 then Some (c - 48)
      else if 97 \<le> c \<and> c \<le> 102 then Some (c - 87)
      else if 65 \<le> c \<and> c \<le> 70 then Some (c - 55)
      else None)"

fun hex4 :: "pystr \<Rightarrow> nat option" where
  "hex4 (a # b # c # d # r) =
     (case (hexval a, hexval b, hexval c, hexval d) of
        (Some x, Some y, Some z, Some w) \<Rightarrow> Some (((x * 16 + y) * 16 + z) * 16 + w)
      | _ \<Rightarrow> None)"
| "hex4 s = None"

definition backslash :: "nat \<Rightarrow> nat option" where
  "backslash c =
     (if c = 34 then Some 34 else if c = 92 then Some 92 else if c = 47 then Some 47
      else if c = 98 then Some 8 else if c = 102 then Some 12 else if c = 110 then Some 10
      else if c = 114 then Some 13 else if c = 116 then Some 9 else None)"

definition is_high_surrogate :: "nat \<Rightarrow> bool" where
  "is_high_surrogate u \<longleftrightarrow> 55296 \<le> u \<and> u \<le> 56319"

definition is_low_surrogate :: "nat \<Rightarrow> bool" where
  "is_low_surrogate u \<longleftrightarrow> 56320 \<le> u \<and> u \<le> 57343"

definition join_surrogates :: "nat \<Rightarrow> nat \<Rightarrow> nat" where
  "join_surrogates hi lo = 65536 + (hi - 55296) * 1024 + (lo - 56320)"

definition unicode_escape :: "pystr \<Rightarrow> pyexc + (nat \<times> pystr)" where
  "unicode_escape s =
     (if length s < 5 then Inl (json_error (str ''Invalid '' @ [92] @ str ''uXXXX escape''))
      else case hex4 s of
        None \<Rightarrow> Inl (json_error (str ''Invalid '' @ [92] @ str ''uXXXX escape''))
      | Some u \<Rightarrow>
          (let r = drop 4 s in
           if is_high_surrogate u \<and> 7 \<le> length r \<and> take 2 r = [92, 117] then
             (case hex4 (drop 2 r) of
                None \<Rightarrow> Inl (json_error (str ''Invalid '' @ [92] @ str ''uXXXX escape''))
              | Some v \<Rightarrow>
                  if is_low_surrogate v then Inr (join_surrogates u v, drop 6 r)
                  else Inr (u, r))
           else Inr (u, r)))"

lemma unicode_escape_shorter:
  "unicode_escape s = Inr (u, r) \<Longrightarrow> length r < length s"
  by (auto simp: unicode_escape_def Let_def split: if_splits option.splits)

function scanstring :: "pystr \<Rightarrow> pyexc + (pystr \<times> pystr)" where
  "scanstring [] = Inl (json_error (str ''Unterminated string starting at''))"
| "scanstring (c # cs) =
     (if c = 34 then Inr ([], cs)
      else if c = 92 then
        (case cs of
           [] \<Rightarrow> Inl (json_error (str ''Unterminated string starting at''))
         | e # es \<Rightarrow>
             if e = 117 then
               (case unicode_escape es of
                  Inl err \<Rightarrow> Inl err
                | Inr (u, r) \<Rightarrow>
                    (case scanstring r of
                       Inl err \<Rightarrow> Inl err
                     | Inr (t, r') \<Rightarrow> Inr (u # t, r')))
             else
               (case backslash e of
                  None \<Rightarrow> Inl (json_error (str ''Invalid '' @ [92] @ str ''escape''))
                | Some ch \<Rightarrow>
                    (case scanstring es of
                       Inl err \<Rightarrow> Inl err
                     | Inr (t, r') \<Rightarrow> Inr (ch # t, r'))))
      else if c < 32 then Inl (json_error (str ''Invalid control character at''))
      else
        (case scanstring cs of
           Inl err \<Rightarrow> Inl err
         | Inr (t, r') \<Rightarrow> Inr (c # t, r')))"
  by pat_completeness auto
termination
  by (relation "measure length") (auto dest: unicode_escape_shorter)



lemma scanstring_shorter: "scanstring s = Inr (t, r) \<Longrightarrow> length r < length s"
proof (induction s arbitrary: t r rule: scanstring.induct)
  case 1
  then show ?case by simp
next
  case (2 c cs)
  show ?case
  proof (cases "c = 34")
    case True
    with "2.prems" show ?thesis by simp
  next
    case False
    note not_quote = this
    show ?thesis
    proof (cases "c = 92")
      case True
      show ?thesis
      proof (cases cs)
        case Nil
        with "2.prems" True show ?thesis by simp
      next
        case (Cons e es)
        show ?thesis
        proof (cases "e = 117")
          case True
          from "2.prems" \<open>c = 92\<close> Cons True obtain u r1 t1 where
            a: "unicode_escape es = Inr (u, r1)" and b: "scanstring r1 = Inr (t1, r)"
            by (auto split: sum.splits)
          from "2.IH"(1)[OF not_quote \<open>c = 92\<close> Cons True a refl b]
          have "length r < length r1" .
          with unicode_escape_shorter[OF a] Cons show ?thesis by simp
        next
          case False
          from "2.prems" \<open>c = 92\<close> Cons False obtain ch t1 where
            a: "backslash e = Some ch" and b: "scanstring es = Inr (t1, r)"
            by (auto split: sum.splits option.splits)
          from "2.IH"(2)[OF not_quote \<open>c = 92\<close> Cons False a b]
          have "length r < length es" .
          with Cons show ?thesis by simp
        qed
      qed
    next
      case False
      from "2.prems" not_quote False obtain t1 where
        c32: "\<not> c < 32" and b: "scanstring cs = Inr (t1, r)"
        by (auto split: sum.splits if_splits)
      from "2.IH"(3)[OF not_quote False c32 b] show ?thesis by simp
    qed
  qed
qed

subsection \<open>Numbers\<close>

definition match_integer :: "pystr \<Rightarrow> (pystr \<times> pystr) option" where
  \<comment> \<open>\<open>-?(?:0|[1-9][0-9]*)\<close>\<close>
  "match_integer s =
     (let (sg, r) = (case s of [] \<Rightarrow> ([], s) | c # cs \<Rightarrow> if c = 45 then ([45], cs) else ([], s))
      in case r of
           [] \<Rightarrow> None
         | c # cs \<Rightarrow>
             if c = 48 then Some (sg @ [48], cs)
             else if 49 \<le> c \<and> c \<le> 57
               then Some (sg @ c # takeWhile is_digit cs, dropWhile is_digit cs)
             else None)"

definition match_frac :: "pystr \<Rightarrow> pystr \<times> pystr" where
  \<comment> \<open>\<open>(\.[0-9]+)?\<close>\<close>
  "match_frac s =
     (case s of
        c # d # ds \<Rightarrow>
          if c = 46 \<and> is_digit d
          then (c # takeWhile is_digit (d # ds), dropWhile is_digit (d # ds))
          else ([], s)
      | _ \<Rightarrow> ([], s))"

definition match_exp :: "pystr \<Rightarrow> pystr \<times> pystr" where
  \<comment> \<open>\<open>([eE][-+]?[0-9]+)?\<close>\<close>
  "match_exp s =
     (case s of
        [] \<Rightarrow> ([], s)
      | c # cs \<Rightarrow>
          if c = 101 \<or> c = 69 then
            (let (sg, r) = (case cs of [] \<Rightarrow> ([], cs)
                            | d # ds \<Rightarrow> if d = 45 \<or> d = 43 then ([d], ds) else ([], cs))
             in case r of
                  [] \<Rightarrow> ([], s)
                | d # ds \<Rightarrow>
                    if is_digit d then (c # sg @ takeWhile is_digit r, dropWhile is_digit r)
                    else ([], s))
          else ([], s))"

definition match_number :: "pystr \<Rightarrow> (pystr \<times> pystr \<times> pystr \<times> pystr) option" where
  "match_number s =
     (case match_integer s of
        None \<Rightarrow> None
      | Some (i, r) \<Rightarrow>
          (let (f, r1) = match_frac r; (e, r2) = match_exp r1 in Some (i, f, e, r2)))"

definition int_of_digits :: "pystr \<Rightarrow> int" where
  "int_of_digits ds = foldl (\<lambda>a c. 10 * a + int (c - 48)) 0 ds"

function show_nat :: "nat \<Rightarrow> pystr" where
  "show_nat n = (if n < 10 then [48 + n] else show_nat (n div 10) @ [48 + n mod 10])"
  by pat_completeness auto
termination
  by (relation "measure id") auto

declare show_nat.simps [simp del]

definition parse_int :: "interp \<Rightarrow> pystr \<Rightarrow> pyexc + json" where
  \<comment> \<open>\<open>int(integer)\<close>, with the limit on the length of decimal literals\<close>
  "parse_int ip t =
     (let (neg, ds) = (case t of [] \<Rightarrow> (False, t)
                       | c # cs \<Rightarrow> if c = 45 then (True, cs) else (False, t))
      in if 640 < length ds \<and> 0 < max_str_digits ip \<and> max_str_digits ip < length ds then
           Inl (Exc ValueError
             (str ''Exceeds the limit ('' @ show_nat (max_str_digits ip) @
              str '' digits) for integer string conversion: value has '' @
              show_nat (length ds) @
              str '' digits; use sys.set_int_max_str_digits() to increase the limit''))
         else Inr (JInt (if neg then - int_of_digits ds else int_of_digits ds)))"

subsection \<open>Values, arrays and objects\<close>

fun dict_set :: "pystr \<Rightarrow> json \<Rightarrow> (pystr \<times> json) list \<Rightarrow> (pystr \<times> json) list" where
  "dict_set k v [] = [(k, v)]"
| "dict_set k v (p # ps) = (if fst p = k then (k, v) # ps else p # dict_set k v ps)"

definition dict :: "(pystr \<times> json) list \<Rightarrow> (pystr \<times> json) list" where
  "dict pairs = foldl (\<lambda>d (k, v). dict_set k v d) [] pairs"

definition recursion_error :: "string \<Rightarrow> pyexc" where
  "recursion_error what =
     Exc RecursionError
       (str ''maximum recursion depth exceeded while decoding a JSON '' @ str what @
        str '' from a unicode string'')"

lemma length_skip_ws: "length (skip_ws s) \<le> length s"
  by (simp add: skip_ws_def length_dropWhile_le)

lemma skip_ws_Cons_shorter: "skip_ws s = x # xs \<Longrightarrow> length xs < length s"
  using length_skip_ws[of s] by simp

function scan_once :: "interp \<Rightarrow> nat \<Rightarrow> pystr \<Rightarrow> pyexc + (json \<times> pystr)"
  and parse_array :: "interp \<Rightarrow> nat \<Rightarrow> json list \<Rightarrow> pystr \<Rightarrow> pyexc + (json \<times> pystr)"
  and parse_object ::
    "interp \<Rightarrow> nat \<Rightarrow> (pystr \<times> json) list \<Rightarrow> pystr \<Rightarrow> pyexc + (json \<times> pystr)"
where
  "scan_once ip d [] = Inl (json_error (str ''Expecting value''))"
| "scan_once ip d (c # cs) =
     (if c = 34 then
        (case scanstring cs of Inl e \<Rightarrow> Inl e | Inr (t, r) \<Rightarrow> Inr (JString t, r))
      else if c = 123 then
        (case d of
           0 \<Rightarrow> Inl (recursion_error ''object'')
         | Suc d' \<Rightarrow>
             (case skip_ws cs of
                [] \<Rightarrow> Inl (json_error (str ''Expecting property name enclosed in double quotes''))
              | x # xs \<Rightarrow>
                  if x = 125 then Inr (JObject [], xs)
                  else parse_object ip d' [] (x # xs)))
      else if c = 91 then
        (case d of
           0 \<Rightarrow> Inl (recursion_error ''array'')
         | Suc d' \<Rightarrow>
             (case skip_ws cs of
                [] \<Rightarrow> Inl (json_error (str ''Expecting value''))
              | x # xs \<Rightarrow>
                  if x = 93 then Inr (JArray [], xs)
                  else parse_array ip d' [] (x # xs)))
      else if take 4 (c # cs) = str ''null'' then Inr (JNull, drop 3 cs)
      else if take 4 (c # cs) = str ''true'' then Inr (JBool True, drop 3 cs)
      else if take 5 (c # cs) = str ''false'' then Inr (JBool False, drop 4 cs)
      else if take 3 (c # cs) = str ''NaN'' then Inr (JFloat (str ''NaN''), drop 2 cs)
      else if take 8 (c # cs) = str ''Infinity'' then Inr (JFloat (str ''Infinity''), drop 7 cs)
      else if take 9 (c # cs) = str ''-Infinity''
        then Inr (JFloat (str ''-Infinity''), drop 8 cs)
      else
        (case match_number (c # cs) of
           None \<Rightarrow> Inl (json_error (str ''Expecting value''))
         | Some (i, f, e, r) \<Rightarrow>
             if f \<noteq> [] \<or> e \<noteq> [] then Inr (JFloat (i @ f @ e), r)
             else (case parse_int ip i of Inl err \<Rightarrow> Inl err | Inr v \<Rightarrow> Inr (v, r))))"
| "parse_array ip d acc s =
     (case scan_once ip d s of
        Inl e \<Rightarrow> Inl e
      | Inr (v, r) \<Rightarrow>
          if length s \<le> length r then Inl (json_error (str ''Expecting value''))
          else
            (case skip_ws r of
               [] \<Rightarrow> Inl (json_error (str ''Expecting '' @ [39, 44, 39] @ str '' delimiter''))
             | x # xs \<Rightarrow>
                 if x = 93 then Inr (JArray (acc @ [v]), xs)
                 else if x = 44 then parse_array ip d (acc @ [v]) (skip_ws xs)
                 else Inl (json_error (str ''Expecting '' @ [39, 44, 39] @ str '' delimiter''))))"
| "parse_object ip d pairs s =
     (case s of
        [] \<Rightarrow> Inl (json_error (str ''Expecting property name enclosed in double quotes''))
      | q # s1 \<Rightarrow>
          if q \<noteq> 34
          then Inl (json_error (str ''Expecting property name enclosed in double quotes''))
          else
            (case scanstring s1 of
               Inl e \<Rightarrow> Inl e
             | Inr (key, s2) \<Rightarrow>
                 (case skip_ws s2 of
                    [] \<Rightarrow> Inl (json_error (str ''Expecting '' @ [39, 58, 39] @ str '' delimiter''))
                  | c # s3 \<Rightarrow>
                      if c \<noteq> 58 then Inl (json_error (str ''Expecting '' @ [39, 58, 39] @ str '' delimiter''))
                      else
                        (case scan_once ip d (skip_ws s3) of
                           Inl e \<Rightarrow> Inl e
                         | Inr (v, s4) \<Rightarrow>
                             if length s \<le> length s4
                             then Inl (json_error (str ''Expecting value''))
                             else
                               (case skip_ws s4 of
                                  [] \<Rightarrow> Inl (json_error (str ''Expecting '' @ [39, 44, 39] @ str '' delimiter''))
                                | x # s5 \<Rightarrow>
                                    if x = 125
                                    then Inr (JObject (dict (pairs @ [(key, v)])), s5)
                                    else if x = 44
                                    then parse_object ip d (pairs @ [(key, v)]) (skip_ws s5)
                                    else Inl (json_error (str ''Expecting '' @ [39, 44, 39] @ str '' delimiter'')))))))"
  by pat_completeness auto
termination
proof (relation "measure (\<lambda>x. case x of
          Inl (ip, d, s) \<Rightarrow> 2 * length s
        | Inr (Inl (ip, d, acc, s)) \<Rightarrow> 2 * length s + 1
        | Inr (Inr (ip, d, pairs, s)) \<Rightarrow> 2 * length s + 1)", goal_cases)
  case 1
  show ?case by simp
next
  case (2 ip d c cs d' x xs)
  then show ?case using length_skip_ws[of cs] by simp
next
  case (3 ip d c cs d' x xs)
  then show ?case using length_skip_ws[of cs] by simp
next
  case (4 ip d acc s)
  show ?case by simp
next
  case (5 ip d acc s x v r xs ys)
  then show ?case using skip_ws_Cons_shorter[of r] length_skip_ws[of ys] by simp
next
  case (6 ip d pairs s q s1 x key s2 c s3)
  then show ?case
    using scanstring_shorter[of s1 key s2] skip_ws_Cons_shorter[of s2 c s3] length_skip_ws[of s3]
    by simp
next
  case (7 ip d pairs s q s1 x key s2 c s3 y v s4 z s5)
  then show ?case using skip_ws_Cons_shorter[of s4 z s5] length_skip_ws[of s5] by simp
qed

definition json_loads :: "interp \<Rightarrow> pystr \<Rightarrow> pyexc + json" where
  "json_loads ip s =
     (if take 1 s = [65279]
      then Inl (json_error (str ''Unexpected UTF-8 BOM (decode using utf-8-sig)''))
      else
        (case scan_once ip (max_depth ip) (skip_ws s) of
           Inl e \<Rightarrow> Inl e
         | Inr (v, r) \<Rightarrow>
             if skip_ws r = [] then Inr v else Inl (json_error (str ''Extra data''))))"

section \<open>\<open>parse_objects_from_response\<close>\<close>

definition except_json_attr :: "pyexc + json \<Rightarrow> pyexc + json" where
  \<comment> \<open>\<open>except (json.JSONDecodeError, AttributeError): return []\<close>\<close>
  "except_json_attr r =
     (case r of
        Inl (Exc cls msg) \<Rightarrow>
          if cls = JSONDecodeError \<or> cls = AttributeError then Inr (JArray [])
          else Inl (Exc cls msg)
      | Inr v \<Rightarrow> Inr v)"

definition parse_objects_from_response :: "interp \<Rightarrow> pystr \<Rightarrow> pyexc + json" where
  "parse_objects_from_response ip response_text =
     except_json_attr
       (case search_fence response_text of
          Some json_str \<Rightarrow> json_loads ip json_str
        | None \<Rightarrow>
            (case search_bare response_text of
               Some found \<Rightarrow> json_loads ip found
             | None \<Rightarrow> Inr (JArray [])))"

section \<open>The detection step: \<open>run_object_detection\<close>\<close>

text \<open>
  The step calls the inference library and Pillow, which are not part of the repository.
  Their calls are fields of an environment: each returns a value or raises an exception
  (a subclass of \<open>Exception\<close>), and nothing else is assumed of them. Objects of the library
  (the model, the processor, the configuration, the prompt built from the messages, the
  generation result) are named by numbers: the program only passes them on. Of an image
  the program reads the format and the size.

  Writing to standard output is taken not to fail, and the \<open>print\<close> calls are left out;
  this includes the one that stands before the \<open>try\<close> of \<open>run_object_detection\<close>.
\<close>

type_synonym bytes = "nat list"

type_synonym pydict = "(pystr \<times> json) list"

type_synonym obj = nat

record image =
  format :: "pystr option"
  width :: nat
  height :: nat

datatype content = ImageContent image | TextContent pystr

datatype message = SystemMessage pystr | UserMessage "content list"

text \<open>
  \<open>limits\<close> are the interpreter limits \<open>json.loads\<close> runs under. \<open>image_open\<close> is
  \<open>Image.open(io.BytesIO(data))\<close> and \<open>image_verify\<close> is \<open>image.verify()\<close>. \<open>temp_stem\<close> is
  the directory and random name \<open>tempfile.NamedTemporaryFile\<close> picks, given the files that
  exist. \<open>load\<close>, \<open>load_config\<close>, \<open>apply_chat_template\<close> and \<open>generate\<close> are the functions
  of \<open>mlx_vlm\<close>, \<open>response_str\<close> is \<open>str\<close> of a generation result, and
  \<open>validation_report\<close> is the text of the error pydantic raises for a value.
\<close>

record env =
  limits :: interp
  image_open :: "bytes \<Rightarrow> pyexc + image"
  image_verify :: "image \<Rightarrow> pyexc + unit"
  temp_stem :: "(pystr \<rightharpoonup> bytes) \<Rightarrow> pystr"
  load :: "pystr \<Rightarrow> pyexc + obj \<times> obj"
  load_config :: "pystr \<Rightarrow> pyexc + obj"
  apply_chat_template :: "obj \<Rightarrow> obj \<Rightarrow> message list \<Rightarrow> pyexc + obj"
  generate :: "obj \<Rightarrow> obj \<Rightarrow> obj \<Rightarrow> int \<Rightarrow> real \<Rightarrow> bool \<Rightarrow> pyexc + obj"
  response_str :: "obj \<Rightarrow> pystr"
  validation_report :: "json \<Rightarrow> pystr"

fun exc_str :: "pyexc \<Rightarrow> pystr" where
  \<comment> \<open>\<open>str(e)\<close>, which is also what \<open>{e}\<close> gives in an f-string\<close>
  "exc_str (Exc cls msg) = msg"

text \<open>
  \<open>objects\<close> is declared \<open>Optional[List[Dict[str, Any]]]\<close>, and pydantic (version 2)
  validates it when a result is built: the value must be a list whose elements are all
  dictionaries, else \<open>ValidationError\<close> is raised. So the field holds dictionaries, and
  \<open>validate_objects\<close> is the check made on the way in.
\<close>

record ObjectDetectionResult =
  success :: bool
  objects :: "pydict list option"
  response_text :: "pystr option"
  error_message :: "pystr option"

definition as_dict :: "json \<Rightarrow> pydict option" where
  "as_dict v = (case v of JObject kvs \<Rightarrow> Some kvs | _ \<Rightarrow> None)"

definition validate_objects :: "env \<Rightarrow> json \<Rightarrow> pyexc + pydict list" where
  "validate_objects env v =
     (case v of
        JArray xs \<Rightarrow>
          (case those (map as_dict xs) of
             Some ds \<Rightarrow> Inr ds
           | None \<Rightarrow> Inl (Exc ValidationError (validation_report env v)))
      | _ \<Rightarrow> Inl (Exc ValidationError (validation_report env v)))"

definition failure :: "pystr \<Rightarrow> ObjectDetectionResult" where
  \<comment> \<open>\<open>ObjectDetectionResult(success=False, error_message=m)\<close>\<close>
  "failure m = \<lparr>success = False, objects = None, response_text = None, error_message = Some m\<rparr>"

definition succeeded :: "pydict list \<Rightarrow> pystr \<Rightarrow> ObjectDetectionResult" where
  \<comment> \<open>\<open>ObjectDetectionResult(success=True, objects=objs, response_text=text)\<close>, validated\<close>
  "succeeded objs text =
     \<lparr>success = True, objects = Some objs, response_text = Some text, error_message = None\<rparr>"

definition try_except :: "pyexc + 'a \<Rightarrow> (pyexc \<Rightarrow> pyexc + 'a) \<Rightarrow> pyexc + 'a" where
  \<comment> \<open>\<open>try: body  except Exception as e: handler\<close>\<close>
  "try_except body handler = (case body of Inl e \<Rightarrow> handler e | Inr v \<Rightarrow> Inr v)"

definition system_content :: pystr where
  \<open>system_content =
     [10] @
     str ''                    You are a helpful assistant to detect objects in images.'' @ [10] @
     str ''                    Detect all objects in the image and return their locations '' @ [10] @
     str ''                    and labels in the form of coordinates.'' @ [10] @
     str ''                    Be as precise as possible.'' @ [10] @
     str ''                    If you are not sure about the object or its position return nothing.'' @ [10] @
     str ''                    Response format:'' @ [10] @
     str ''                    ```json'' @ [10] @
     str ''                    [{'' @ [10] @
     str ''                        "object": "object_name",'' @ [10] @
     str ''                        "bbox_2d": [xmin, ymin, xmax, ymax]'' @ [10] @
     str ''                    }, ...]'' @ [10] @
     str ''                    ```'' @ [10] @
     str ''                ''\<close>

definition messages :: "image \<Rightarrow> pystr \<Rightarrow> message list" where
  "messages img prompt =
     [SystemMessage system_content, UserMessage [ImageContent img, TextContent prompt]]"

definition default_model :: pystr where
  "default_model = str ''mlx-community/Qwen2.5-VL-7B-Instruct-4bit''"

text \<open>
  The two inner handlers return a failure result from inside the outer \<open>try\<close>; every other
  exception of the body reaches the outer handler. The result is a sum, so that raising
  is a possible outcome of the model.
\<close>

definition run_object_detection ::
  "env \<Rightarrow> image \<Rightarrow> pystr \<Rightarrow> int \<Rightarrow> real \<Rightarrow> pystr \<Rightarrow> pyexc + ObjectDetectionResult" where
  "run_object_detection env img prompt max_tokens temperature model =
     try_except
       (case load env model of
          Inl e \<Rightarrow> Inr (failure (str ''Error loading model: '' @ exc_str e))
        | Inr (model_obj, processor) \<Rightarrow>
            (case load_config env model of
               Inl e \<Rightarrow> Inl e
             | Inr config \<Rightarrow>
                 (case apply_chat_template env processor config (messages img prompt) of
                    Inl e \<Rightarrow> Inl e
                  | Inr prompt_text \<Rightarrow>
                      (case generate env model_obj processor prompt_text max_tokens temperature
                              True of
                         Inl e \<Rightarrow> Inr (failure (str ''Error during generation: '' @ exc_str e))
                       | Inr response \<Rightarrow>
                           (let text = response_str env response in
                            case parse_objects_from_response (limits env) text of
                              Inl e \<Rightarrow> Inl e
                            | Inr parsed \<Rightarrow>
                                (case validate_objects env parsed of
                                   Inl e \<Rightarrow> Inl e
                                 | Inr objs \<Rightarrow> Inr (succeeded objs text)))))))
       (\<lambda>e. Inr (failure (str ''Error during object detection: '' @ exc_str e)))"

section \<open>The endpoint: \<open>detect_objects\<close>\<close>

text \<open>
  Of the upload the handler reads the content type and the bytes (\<open>await file.read()\<close>,
  taken not to fail).
  The generation parameters come as an \<open>ObjectDetectionRequest\<close>; each field has a default,
  and the parameter itself defaults to \<open>ObjectDetectionRequest()\<close>.
\<close>

record UploadFile =
  content_type :: "pystr option"
  contents :: bytes

record ObjectDetectionRequest =
  prompt :: pystr
  max_tokens :: int
  temperature :: real

definition new_ObjectDetectionRequest ::
  "pystr option \<Rightarrow> int option \<Rightarrow> real option \<Rightarrow> ObjectDetectionRequest" where
  \<comment> \<open>the class called with some of its fields given\<close>
  "new_ObjectDetectionRequest p m t =
     \<lparr>prompt = (case p of None \<Rightarrow>
          str ''detect all the objects like sunglasses, shirts, trousers or watches in the image''
        | Some v \<Rightarrow> v),
      max_tokens = (case m of None \<Rightarrow> 1000 | Some v \<Rightarrow> v),
      temperature = (case t of None \<Rightarrow> 0.7 | Some v \<Rightarrow> v)\<rparr>"

definition request_or_default :: "ObjectDetectionRequest option \<Rightarrow> ObjectDetectionRequest" where
  \<comment> \<open>\<open>request: ObjectDetectionRequest = ObjectDetectionRequest()\<close>\<close>
  "request_or_default request_arg =
     (case request_arg of None \<Rightarrow> new_ObjectDetectionRequest None None None | Some r \<Rightarrow> r)"

record ObjectDetectionResponse =
  success :: bool
  objects :: "pydict list option"
  response_text :: "pystr option"
  error_message :: "pystr option"

text \<open>
  What the handler does to the machine: the files that exist, with their contents, and
  the list of the calls it has made to the outside, in order (the temporary file written,
  the detection step called with its arguments, the temporary file unlinked). The file
  system is taken to be reliable: creating, writing and unlinking a temporary file do
  not fail.
\<close>

datatype event =
    Wrote pystr bytes
  | Inference image pystr int real
  | Unlinked pystr

record world =
  files :: "pystr \<rightharpoonup> bytes"
  trace :: "event list"

text \<open>
  The detection step as the handler sees it: called with the image and the three
  parameters, it returns a result or raises, and may change the files.
\<close>

type_synonym detector =
  "image \<Rightarrow> pystr \<Rightarrow> int \<Rightarrow> real \<Rightarrow> (pystr \<rightharpoonup> bytes) \<Rightarrow>
   (pyexc + ObjectDetectionResult) \<times> (pystr \<rightharpoonup> bytes)"

definition is_image_type :: "pystr option \<Rightarrow> bool" where
  \<comment> \<open>\<open>file.content_type and file.content_type.startswith("image/")\<close>\<close>
  "is_image_type ct = (case ct of None \<Rightarrow> False | Some c \<Rightarrow> c \<noteq> [] \<and> take 6 c = str ''image/'')"

definition open_and_verify :: "env \<Rightarrow> bytes \<Rightarrow> pyexc + image" where
  "open_and_verify env image_data =
     (case image_open env image_data of
        Inl e \<Rightarrow> Inl e
      | Inr img \<Rightarrow> (case image_verify env img of Inl e \<Rightarrow> Inl e | Inr u \<Rightarrow> Inr img))"

definition temp_path :: "env \<Rightarrow> (pystr \<rightharpoonup> bytes) \<Rightarrow> pystr" where
  "temp_path env fs = temp_stem env fs @ str ''.jpg''"

definition write_temp :: "env \<Rightarrow> bytes \<Rightarrow> world \<Rightarrow> pystr \<times> world" where
  \<comment> \<open>the \<open>with tempfile.NamedTemporaryFile(delete=False, suffix=".jpg")\<close> block\<close>
  "write_temp env image_data w =
     (let name = temp_path env (files w) in
      (name, \<lparr>files = (files w)(name \<mapsto> image_data),
              trace = trace w @ [Wrote name image_data]\<rparr>))"

definition call_detection ::
  "detector \<Rightarrow> image \<Rightarrow> ObjectDetectionRequest \<Rightarrow> world \<Rightarrow>
   (pyexc + ObjectDetectionResult) \<times> world" where
  "call_detection run img request w =
     (let (outcome, fs) = run img (prompt request) (max_tokens request) (temperature request)
                            (files w)
      in (outcome,
          \<lparr>files = fs,
           trace = trace w @
             [Inference img (prompt request) (max_tokens request) (temperature request)]\<rparr>))"

definition remove_temp :: "pystr \<Rightarrow> world \<Rightarrow> world" where
  \<comment> \<open>\<open>if os.path.exists(temp_image_path): os.unlink(temp_image_path)\<close>\<close>
  "remove_temp temp_image_path w =
     (if files w temp_image_path \<noteq> None
      then \<lparr>files = (files w)(temp_image_path := None),
            trace = trace w @ [Unlinked temp_image_path]\<rparr>
      else w)"

definition response_of :: "ObjectDetectionResult \<Rightarrow> ObjectDetectionResponse" where
  "response_of result =
     (if ObjectDetectionResult.success result
      then \<lparr>success = True, objects = ObjectDetectionResult.objects result,
            response_text = ObjectDetectionResult.response_text result, error_message = None\<rparr>
      else \<lparr>success = False, objects = None, response_text = None,
            error_message = ObjectDetectionResult.error_message result\<rparr>)"

definition internal_server_error :: "pyexc \<Rightarrow> ObjectDetectionResponse" where
  "internal_server_error e =
     \<lparr>success = False, objects = None, response_text = None,
      error_message = Some (str ''Internal server error: '' @ exc_str e)\<rparr>"

text \<open>
  The handler, for an arbitrary detection step \<open>run\<close>, so that the paths on which the step
  raises can be stated. \<open>Inl\<close> is an exception leaving the handler, \<open>Inr\<close> the payload it
  returns. The \<open>finally\<close> clause runs on every way out of the inner \<open>try\<close>, before the
  outer handlers: \<open>remove_temp\<close> comes before the outcome is looked at.
\<close>

definition detect_objects_with ::
  "detector \<Rightarrow> env \<Rightarrow> UploadFile \<Rightarrow> ObjectDetectionRequest option \<Rightarrow> world \<Rightarrow>
   (exn + ObjectDetectionResponse) \<times> world" where
  "detect_objects_with run env file request_arg w =
     (let request = request_or_default request_arg
      in if \<not> is_image_type (content_type file)
         then (Inl (HTTPException 400 (str ''File must be an image'')), w)
         else
           (let image_data = contents file in
            case open_and_verify env image_data of
              Inl e \<Rightarrow> (Inl (HTTPException 400 (str ''Invalid image file: '' @ exc_str e)), w)
            | Inr img \<Rightarrow>
                (let (temp_image_path, w1) = write_temp env image_data w;
                     (outcome, w2) = call_detection run img request w1;
                     w3 = remove_temp temp_image_path w2
                 in (case outcome of
                       Inl e \<Rightarrow> (Inr (internal_server_error e), w3)
                     | Inr result \<Rightarrow> (Inr (response_of result), w3)))))"

text \<open>The endpoint: the handler with \<open>run_object_detection\<close>, on its default model.\<close>

definition detect_objects ::
  "env \<Rightarrow> UploadFile \<Rightarrow> ObjectDetectionRequest option \<Rightarrow> world \<Rightarrow>
   (exn + ObjectDetectionResponse) \<times> world" where
  "detect_objects env =
     detect_objects_with
       (\<lambda>img p m t fs. (run_object_detection env img p m t default_model, fs))
       env"

text \<open>
  The status FastAPI answers with: 200 for a payload the handler returns (the route sets
  no other status), the status of an \<open>HTTPException\<close>, 500 for any other exception.
\<close>

fun status_code :: "exn + ObjectDetectionResponse \<Rightarrow> nat" where
  "status_code (Inr payload) = 200"
| "status_code (Inl (HTTPException code detail)) = code"
| "status_code (Inl (Raised e)) = 500"

section \<open>A sample environment\<close>

text \<open>
  Concrete values on which the theorems below are instantiated: an environment in which
  every call succeeds and the model replies with one fenced record, one in which the
  model cannot be loaded, an upload, and detection steps that raise, fail, or report the
  prompt they were given.
\<close>

definition sample_reply :: pystr where
  \<open>sample_reply = str ''```json [{"object": "hat", "bbox_2d": [1, 2, 30, 40]}] ```''\<close>

definition sample_objects :: "pydict list" where
  "sample_objects =
     [[(str ''object'', JString (str ''hat'')),
       (str ''bbox_2d'', JArray [JInt 1, JInt 2, JInt 30, JInt 40])]]"

definition sample_image :: image where
  "sample_image = \<lparr>format = Some (str ''JPEG''), width = 4, height = 3\<rparr>"

definition sample_env :: env where
  "sample_env =
     \<lparr>limits = default_interp,
      image_open = (\<lambda>b. if take 2 b = [255, 216]
                         then Inr \<lparr>format = Some (str ''JPEG''), width = 4, height = 3\<rparr>
                         else Inl (Exc OtherError (str ''cannot identify image file''))),
      image_verify = (\<lambda>i. Inr ()),
      temp_stem = (\<lambda>fs. str ''/tmp/tmpk3v9x2''),
      load = (\<lambda>m. Inr (1, 2)),
      load_config = (\<lambda>m. Inr 3),
      apply_chat_template = (\<lambda>p c ms. Inr 4),
      generate = (\<lambda>m p t n temp v. Inr 5),
      response_str = (\<lambda>r. sample_reply),
      validation_report = (\<lambda>v. str ''1 validation error for ObjectDetectionResult'')\<rparr>"

definition offline_env :: env where
  "offline_env = sample_env\<lparr>load := \<lambda>m. Inl (Exc OSError (str ''no such model''))\<rparr>"

definition sample_file :: UploadFile where
  "sample_file = \<lparr>content_type = Some (str ''image/jpeg''), contents = [255, 216, 255, 224]\<rparr>"

definition sample_world :: world where
  "sample_world = \<lparr>files = Map.empty, trace = []\<rparr>"

definition sample_detector :: detector where
  "sample_detector =
     (\<lambda>img p m t fs. (run_object_detection sample_env img p m t default_model, fs))"

definition raising_detector :: detector where
  "raising_detector = (\<lambda>img p m t fs. (Inl (Exc OtherError (str ''boom'')), fs))"

definition failing_detector :: detector where
  "failing_detector =
     (\<lambda>img p m t fs. (Inr (failure (str ''Error loading model: no such model'')), fs))"

definition echo_detector :: detector where
  "echo_detector =
     (\<lambda>img p m t fs.
        (if m = 1000 \<and> t = 0.7 then Inr (failure p) else Inl (Exc OtherError []), fs))"

section \<open>Facts about the decoder and the matcher\<close>

declare parse_array.simps [simp del] parse_object.simps [simp del] scan_once.simps(2) [simp del]

lemma match_frac_shorter: "match_frac s = (f, r) \<Longrightarrow> length r \<le> length s"
  by (auto simp: match_frac_def split: list.splits if_splits
      intro: le_trans[OF length_dropWhile_le])

lemma match_exp_shorter: "match_exp s = (e, r) \<Longrightarrow> length r \<le> length s"
  by (auto simp: match_exp_def Let_def split: list.splits if_splits prod.splits
      intro: le_trans[OF length_dropWhile_le])

lemma match_integer_shorter: "match_integer s = Some (i, r) \<Longrightarrow> length r < length s"
  by (auto simp: match_integer_def Let_def split: list.splits if_splits prod.splits
      intro: le_less_trans[OF length_dropWhile_le])

lemma match_number_shorter: "match_number s = Some (i, f, e, r) \<Longrightarrow> length r < length s"
  unfolding match_number_def
  by (auto split: option.splits prod.splits
      dest!: match_integer_shorter match_frac_shorter match_exp_shorter)

lemma scan_shorter:
  "scan_once ip d s = Inr (v, r) \<Longrightarrow> length r < length s"
  "parse_array ip d acc s = Inr (v, r) \<Longrightarrow> length r < length s"
  "parse_object ip d pairs s = Inr (v, r) \<Longrightarrow> length r < length s"
proof (induction ip d s and ip d acc s and ip d pairs s arbitrary: v r and v r and v r
    rule: scan_once_parse_array_parse_object.induct)
  case (1 ip d)
  then show ?case by simp
next
  case (2 ip d c cs)
  show ?case
  proof (cases "c = 34")
    case True
    with "2.prems" show ?thesis
      by (auto simp: scan_once.simps(2) split: sum.splits dest: scanstring_shorter)
  next
    case nq: False
    show ?thesis
    proof (cases "c = 123")
      case True
      with "2.prems" nq obtain d' x xs where
        d: "d = Suc d'" and sk: "skip_ws cs = x # xs" and
        res: "(x = 125 \<and> r = xs) \<or> (x \<noteq> 125 \<and> parse_object ip d' [] (x # xs) = Inr (v, r))"
        by (auto simp: scan_once.simps(2) split: nat.splits list.splits if_splits)
      from res show ?thesis
      proof
        assume "x = 125 \<and> r = xs"
        with skip_ws_Cons_shorter[OF sk] show ?thesis by simp
      next
        assume a: "x \<noteq> 125 \<and> parse_object ip d' [] (x # xs) = Inr (v, r)"
        from "2.IH"(1)[OF nq True d sk _ conjunct2[OF a]] a
        have "length r < length (x # xs)" by simp
        with length_skip_ws[of cs] sk show ?thesis by simp
      qed
    next
      case nb: False
      show ?thesis
      proof (cases "c = 91")
        case True
        with "2.prems" nq nb obtain d' x xs where
          d: "d = Suc d'" and sk: "skip_ws cs = x # xs" and
          res: "(x = 93 \<and> r = xs) \<or> (x \<noteq> 93 \<and> parse_array ip d' [] (x # xs) = Inr (v, r))"
          by (auto simp: scan_once.simps(2) split: nat.splits list.splits if_splits)
        from res show ?thesis
        proof
          assume "x = 93 \<and> r = xs"
          with skip_ws_Cons_shorter[OF sk] show ?thesis by simp
        next
          assume a: "x \<noteq> 93 \<and> parse_array ip d' [] (x # xs) = Inr (v, r)"
          from "2.IH"(2)[OF nq nb True d sk _ conjunct2[OF a]] a
          have "length r < length (x # xs)" by simp
          with length_skip_ws[of cs] sk show ?thesis by simp
        qed
      next
        case False
        with "2.prems" nq nb show ?thesis
          by (auto simp: scan_once.simps(2) split: if_splits option.splits sum.splits
              dest: match_number_shorter)
      qed
    qed
  qed
next
  case (3 ip d acc s)
  from "3.prems" obtain v0 r0 where
    s0: "scan_once ip d s = Inr (v0, r0)" and g: "length r0 < length s"
    by (auto simp: parse_array.simps[of ip d acc s] split: sum.splits if_splits)
  from "3.prems" s0 g obtain x xs where
    sk: "skip_ws r0 = x # xs" and
    res: "(x = 93 \<and> r = xs) \<or>
          (x \<noteq> 93 \<and> x = 44 \<and> parse_array ip d (acc @ [v0]) (skip_ws xs) = Inr (v, r))"
    by (auto simp: parse_array.simps[of ip d acc s] split: list.splits if_splits)
  from res show ?case
  proof
    assume "x = 93 \<and> r = xs"
    with skip_ws_Cons_shorter[OF sk] g show ?thesis by simp
  next
    assume a: "x \<noteq> 93 \<and> x = 44 \<and> parse_array ip d (acc @ [v0]) (skip_ws xs) = Inr (v, r)"
    have "length r < length (skip_ws xs)"
      using "3.IH"(2)[OF s0 refl _ sk] a g by simp
    with length_skip_ws[of xs] skip_ws_Cons_shorter[OF sk] g show ?thesis by simp
  qed
next
  case (4 ip d pairs s)
  from "4.prems" obtain q s1 key s2 c s3 v0 s4 x s5 where
    s: "s = q # s1" and q: "q = 34" and ss: "scanstring s1 = Inr (key, s2)" and
    sk2: "skip_ws s2 = c # s3" and c: "c = 58" and
    so: "scan_once ip d (skip_ws s3) = Inr (v0, s4)" and g: "length s4 < length s" and
    sk4: "skip_ws s4 = x # s5" and
    res: "(x = 125 \<and> r = s5) \<or>
          (x \<noteq> 125 \<and> x = 44 \<and>
           parse_object ip d (pairs @ [(key, v0)]) (skip_ws s5) = Inr (v, r))"
    by (auto simp: parse_object.simps[of ip d pairs s]
        split: list.splits if_splits sum.splits)
  from res show ?case
  proof
    assume "x = 125 \<and> r = s5"
    with skip_ws_Cons_shorter[OF sk4] g show ?thesis by simp
  next
    assume a: "x \<noteq> 125 \<and> x = 44 \<and>
      parse_object ip d (pairs @ [(key, v0)]) (skip_ws s5) = Inr (v, r)"
    have "length r < length (skip_ws s5)"
      using "4.IH"(2) s q ss sk2 c so g sk4 a by auto
    with length_skip_ws[of s5] skip_ws_Cons_shorter[OF sk4] g show ?thesis by simp
  qed
qed

lemma parse_array_is_array:
  "parse_array ip d acc s = Inr (v, r) \<Longrightarrow> \<exists>xs. v = JArray xs"
proof (induction "length s" arbitrary: s acc rule: less_induct)
  case less
  note unfold = parse_array.simps[of ip d acc s]
  from less.prems obtain v0 r0 where
    s0: "scan_once ip d s = Inr (v0, r0)" and g: "length r0 < length s"
    by (auto simp: unfold split: sum.splits if_splits)
  from less.prems s0 g obtain x xs where sk: "skip_ws r0 = x # xs"
    by (cases "skip_ws r0") (auto simp: unfold)
  show ?case
  proof (cases "x = 93")
    case True
    with less.prems s0 g sk have "v = JArray (acc @ [v0])"
      by (simp add: unfold)
    then show ?thesis by blast
  next
    case False
    with less.prems s0 g sk have
      a: "parse_array ip d (acc @ [v0]) (skip_ws xs) = Inr (v, r)"
      by (simp add: unfold split: if_splits)
    have "length (skip_ws xs) < length s"
      using length_skip_ws[of xs] skip_ws_Cons_shorter[OF sk] g by simp
    from less.hyps[OF this a] show ?thesis .
  qed
qed

lemma scan_once_bracket_is_array:
  assumes "scan_once ip d (91 # cs) = Inr (v, r)"
  shows "\<exists>xs. v = JArray xs"
  using assms
  by (auto simp: scan_once.simps(2) split: nat.splits list.splits if_splits
      dest: parse_array_is_array)

lemma json_loads_bracket_is_array:
  assumes "json_loads ip (91 # cs) = Inr v"
  shows "\<exists>xs. v = JArray xs"
proof -
  have "skip_ws (91 # cs) = 91 # cs"
    by (simp add: skip_ws_def is_json_ws_def)
  with assms show ?thesis
    by (auto simp: json_loads_def split: sum.splits if_splits
        dest: scan_once_bracket_is_array)
qed

subsection \<open>What a match of the two patterns looks like\<close>

lemma rx_match_Chr:
  "rx_match f (Chr c # ps) s = Some m \<longleftrightarrow> (\<exists>xs. s = c # xs \<and> rx_match f ps xs = Some m)"
  by (cases s) auto

lemma rx_match_GroupOpen:
  "rx_match f (GroupOpen # ps) s = Some m \<longleftrightarrow> (\<exists>m'. m = s # m' \<and> rx_match f ps s = Some m')"
  by auto

lemma rx_match_GroupClose:
  "rx_match f (GroupClose # ps) s = Some m \<longleftrightarrow> (\<exists>m'. m = s # m' \<and> rx_match f ps s = Some m')"
  by auto

lemma rx_match_StarGreedy:
  "rx_match f (StarGreedy k # ps) s = Some m \<Longrightarrow>
   \<exists>u v. s = u @ v \<and> (\<forall>c\<in>set u. in_class f k c) \<and> rx_match f ps v = Some m"
proof (induction s)
  case Nil
  then show ?case by simp
next
  case (Cons x xs)
  show ?case
  proof (cases "in_class f k x \<and> rx_match f (StarGreedy k # ps) xs \<noteq> None")
    case True
    with Cons.prems have "rx_match f (StarGreedy k # ps) xs = Some m" by auto
    from Cons.IH[OF this] obtain u v where
      "xs = u @ v" "\<forall>c\<in>set u. in_class f k c" "rx_match f ps v = Some m" by blast
    with True have "x # xs = (x # u) @ v \<and> (\<forall>c\<in>set (x # u). in_class f k c) \<and>
      rx_match f ps v = Some m" by simp
    then show ?thesis by blast
  next
    case False
    with Cons.prems have "rx_match f ps (x # xs) = Some m"
      by (auto split: if_splits option.splits)
    then have "x # xs = [] @ (x # xs) \<and> (\<forall>c\<in>set []. in_class f k c) \<and>
      rx_match f ps (x # xs) = Some m" by simp
    then show ?thesis by blast
  qed
qed

lemma rx_match_StarLazy:
  "rx_match f (StarLazy k # ps) s = Some m \<Longrightarrow>
   \<exists>u v. s = u @ v \<and> (\<forall>c\<in>set u. in_class f k c) \<and> rx_match f ps v = Some m"
proof (induction s)
  case Nil
  then show ?case by simp
next
  case (Cons x xs)
  show ?case
  proof (cases "rx_match f ps (x # xs)")
    case (Some m')
    with Cons.prems have "rx_match f ps (x # xs) = Some m" by simp
    then have "x # xs = [] @ (x # xs) \<and> (\<forall>c\<in>set []. in_class f k c) \<and>
      rx_match f ps (x # xs) = Some m" by simp
    then show ?thesis by blast
  next
    case None
    with Cons.prems have k: "in_class f k x" and
      "rx_match f (StarLazy k # ps) xs = Some m"
      by (auto split: if_splits)
    from Cons.IH[OF this(2)] obtain u v where
      "xs = u @ v" "\<forall>c\<in>set u. in_class f k c" "rx_match f ps v = Some m" by blast
    with k have "x # xs = (x # u) @ v \<and> (\<forall>c\<in>set (x # u). in_class f k c) \<and>
      rx_match f ps v = Some m" by simp
    then show ?thesis by blast
  qed
qed

lemma re_search_Some:
  "re_search f ps t = Some m \<Longrightarrow>
   \<exists>pre s m'. t = pre @ s \<and> m = s # m' \<and> rx_match f ps s = Some m'"
proof (induction t)
  case Nil
  then show ?case by auto
next
  case (Cons x xs)
  show ?case
  proof (cases "rx_match f ps (x # xs)")
    case (Some m')
    with Cons.prems have "x # xs = [] @ (x # xs) \<and> m = (x # xs) # m' \<and>
      rx_match f ps (x # xs) = Some m'" by auto
    then show ?thesis by blast
  next
    case None
    with Cons.prems have "re_search f ps xs = Some m" by simp
    from Cons.IH[OF this] obtain pre s m' where
      "xs = pre @ s" "m = s # m'" "rx_match f ps s = Some m'" by blast
    then have "x # xs = (x # pre) @ s \<and> m = s # m' \<and> rx_match f ps s = Some m'" by simp
    then show ?thesis by blast
  qed
qed

lemma between_append: "between (u @ v) v = u"
  by (simp add: between_def)

lemma bare_match_shape:
  assumes "rx_match False bare_pattern s = Some m"
  shows "\<exists>body fin. s = 91 # body @ 93 # fin \<and> m = [fin] \<and> 10 \<notin> set body"
proof -
  from assms obtain xs where s: "s = 91 # xs" and
    a: "rx_match False [StarLazy Dot, Chr 93] xs = Some m"
    by (auto simp: bare_pattern_def rx_match_Chr)
  from rx_match_StarLazy[OF a] obtain u v where
    xs: "xs = u @ v" and u: "\<forall>c\<in>set u. in_class False Dot c" and
    b: "rx_match False [Chr 93] v = Some m" by blast
  from b obtain fin where "v = 93 # fin" "m = [fin]"
    by (auto simp: rx_match_Chr)
  with s xs u show ?thesis by auto
qed

lemma search_bare_shape:
  assumes "search_bare t = Some g"
  shows "\<exists>pre body post. t = pre @ g @ post \<and> g = 91 # body @ [93] \<and> 10 \<notin> set body"
proof -
  from assms obtain m where m: "re_search False bare_pattern t = Some m"
    by (auto simp: search_bare_def split: option.splits)
  from re_search_Some[OF m] obtain pre s m' where
    t: "t = pre @ s" and mm: "m = s # m'" and r: "rx_match False bare_pattern s = Some m'"
    by blast
  from bare_match_shape[OF r] obtain body fin where
    s: "s = 91 # body @ 93 # fin" and m': "m' = [fin]" and nl: "10 \<notin> set body" by blast
  have "between s fin = 91 # body @ [93]"
    using between_append[of "91 # body @ [93]" fin] s by simp
  with assms m mm m' have "g = 91 # body @ [93]"
    by (simp add: search_bare_def)
  with t s nl have "t = pre @ g @ fin \<and> g = 91 # body @ [93] \<and> 10 \<notin> set body" by simp
  then show ?thesis by blast
qed

lemma fence_match_shape:
  assumes "rx_match True fence_pattern s = Some m"
  shows "\<exists>w1 body w2 fin.
           s = str ''```json'' @ w1 @ (91 # body @ [93]) @ w2 @ str ''```'' @ fin \<and>
           m = [(91 # body @ [93]) @ w2 @ str ''```'' @ fin, w2 @ str ''```'' @ fin, fin] \<and>
           (\<forall>c\<in>set w1. is_space c) \<and> (\<forall>c\<in>set w2. is_space c)"
proof -
  from assms obtain s1 where s: "s = str ''```json'' @ s1" and
    a: "rx_match True [StarGreedy Space, GroupOpen, Chr 91, StarLazy Dot, Chr 93, GroupClose,
          StarGreedy Space, Chr 96, Chr 96, Chr 96] s1 = Some m"
    by (auto simp: fence_pattern_def rx_match_Chr)
  from rx_match_StarGreedy[OF a] obtain w1 v where
    s1: "s1 = w1 @ v" and w1: "\<forall>c\<in>set w1. in_class True Space c" and
    b: "rx_match True [GroupOpen, Chr 91, StarLazy Dot, Chr 93, GroupClose,
          StarGreedy Space, Chr 96, Chr 96, Chr 96] v = Some m" by blast
  from b obtain m2 v1 where m: "m = v # m2" and v: "v = 91 # v1" and
    c: "rx_match True [StarLazy Dot, Chr 93, GroupClose,
          StarGreedy Space, Chr 96, Chr 96, Chr 96] v1 = Some m2"
    by (auto simp: rx_match_Chr)
  from rx_match_StarLazy[OF c] obtain body v2 where
    v1: "v1 = body @ v2" and
    d: "rx_match True [Chr 93, GroupClose, StarGreedy Space, Chr 96, Chr 96, Chr 96] v2 = Some m2"
    by blast
  from d obtain v3 m3 where v2: "v2 = 93 # v3" and m2: "m2 = v3 # m3" and
    e: "rx_match True [StarGreedy Space, Chr 96, Chr 96, Chr 96] v3 = Some m3"
    by (auto simp: rx_match_Chr)
  from rx_match_StarGreedy[OF e] obtain w2 v4 where
    v3: "v3 = w2 @ v4" and w2: "\<forall>c\<in>set w2. in_class True Space c" and
    f: "rx_match True [Chr 96, Chr 96, Chr 96] v4 = Some m3" by blast
  from f obtain fin where v4: "v4 = 96 # 96 # 96 # fin" and m3: "m3 = [fin]"
    by (auto simp: rx_match_Chr)
  have "s = str ''```json'' @ w1 @ (91 # body @ [93]) @ w2 @ str ''```'' @ fin"
    using s s1 v v1 v2 v3 v4 by simp
  moreover have "m = [(91 # body @ [93]) @ w2 @ str ''```'' @ fin, w2 @ str ''```'' @ fin, fin]"
    using m m2 m3 v v1 v2 v3 v4 by simp
  ultimately show ?thesis using w1 w2 by auto
qed

lemma search_fence_shape:
  assumes "search_fence t = Some g"
  shows "\<exists>pre w1 body w2 post.
           t = pre @ str ''```json'' @ w1 @ g @ w2 @ str ''```'' @ post \<and>
           g = 91 # body @ [93] \<and>
           (\<forall>c\<in>set w1. is_space c) \<and> (\<forall>c\<in>set w2. is_space c)"
proof -
  from assms obtain m where m: "re_search True fence_pattern t = Some m"
    by (auto simp: search_fence_def split: option.splits)
  from re_search_Some[OF m] obtain pre s m' where
    t: "t = pre @ s" and mm: "m = s # m'" and r: "rx_match True fence_pattern s = Some m'"
    by blast
  from fence_match_shape[OF r] obtain w1 body w2 fin where
    s: "s = str ''```json'' @ w1 @ (91 # body @ [93]) @ w2 @ str ''```'' @ fin" and
    m': "m' = [(91 # body @ [93]) @ w2 @ str ''```'' @ fin, w2 @ str ''```'' @ fin, fin]" and
    ws: "(\<forall>c\<in>set w1. is_space c) \<and> (\<forall>c\<in>set w2. is_space c)" by blast
  have "between ((91 # body @ [93]) @ w2 @ str ''```'' @ fin) (w2 @ str ''```'' @ fin) =
      91 # body @ [93]"
    by (rule between_append)
  with assms m mm m' have g: "g = 91 # body @ [93]"
    by (simp add: search_fence_def)
  have "t = pre @ str ''```json'' @ w1 @ g @ w2 @ str ''```'' @ fin"
    using t s g by simp
  with g ws show ?thesis by blast
qed

lemma parse_objects_cases:
  "parse_objects_from_response ip t =
     (case search_fence t of
        Some g \<Rightarrow> except_json_attr (json_loads ip g)
      | None \<Rightarrow>
          (case search_bare t of
             Some g \<Rightarrow> except_json_attr (json_loads ip g)
           | None \<Rightarrow> Inr (JArray [])))"
  by (simp add: parse_objects_from_response_def except_json_attr_def split: option.splits)

lemma except_json_attr_array:
  assumes "\<And>v. r = Inr v \<Longrightarrow> \<exists>xs. v = JArray xs"
    and "except_json_attr r = Inr v"
  shows "\<exists>xs. v = JArray xs"
  using assms
  by (auto simp: except_json_attr_def split: sum.splits pyexc.splits if_splits)

lemma parse_objects_is_array:
  assumes "parse_objects_from_response ip t = Inr v"
  shows "\<exists>xs. v = JArray xs"
proof (cases "search_fence t")
  case (Some g)
  from search_fence_shape[OF Some] obtain body where g: "g = 91 # body @ [93]" by blast
  from assms Some have "except_json_attr (json_loads ip g) = Inr v"
    by (simp add: parse_objects_cases)
  then show ?thesis
    using except_json_attr_array[of "json_loads ip g" v] json_loads_bracket_is_array[of ip "body @ [93]"] g
    by blast
next
  case None
  show ?thesis
  proof (cases "search_bare t")
    case (Some g)
    from search_bare_shape[OF Some] obtain body where g: "g = 91 # body @ [93]" by blast
    from assms None Some have "except_json_attr (json_loads ip g) = Inr v"
      by (simp add: parse_objects_cases)
    then show ?thesis
      using except_json_attr_array[of "json_loads ip g" v]
        json_loads_bracket_is_array[of ip "body @ [93]"] g
      by blast
  next
    case n2: None
    from assms None n2 show ?thesis by (auto simp: parse_objects_cases)
  qed
qed

lemma except_json_attr_Inr:
  "except_json_attr r = Inr v \<longleftrightarrow>
     r = Inr v \<or>
     (v = JArray [] \<and>
      (\<exists>msg. r = Inl (Exc JSONDecodeError msg) \<or> r = Inl (Exc AttributeError msg)))"
  by (auto simp: except_json_attr_def split: sum.splits pyexc.splits if_splits)

subsection \<open>A text of digits between brackets\<close>

lemma search_fence_needs_backtick: "96 \<notin> set t \<Longrightarrow> search_fence t = None"
proof (cases "search_fence t")
  case None
  then show ?thesis .
next
  case (Some g)
  assume nb: "96 \<notin> set t"
  from search_fence_shape[OF Some] obtain pre rest where "t = pre @ str ''```json'' @ rest"
    by blast
  then have "96 \<in> set t" by simp
  with nb show ?thesis by simp
qed

lemma lazy_dot_stops_at_first_bracket:
  "\<forall>c\<in>set ds. c \<noteq> 93 \<and> c \<noteq> 10 \<Longrightarrow>
   rx_match False [StarLazy Dot, Chr 93] (ds @ 93 # r) = Some [r]"
  by (induction ds) auto

lemma search_bare_first_bracket:
  assumes "\<forall>c\<in>set ds. c \<noteq> 93 \<and> c \<noteq> 10"
  shows "search_bare (91 # ds @ 93 # r) = Some (91 # ds @ [93])"
  using lazy_dot_stops_at_first_bracket[OF assms, of r]
  by (simp add: search_bare_def bare_pattern_def between_def)

lemma takeWhile_digit_ones: "takeWhile is_digit (replicate n 49 @ [93]) = replicate n 49"
  by (induction n) (simp_all add: is_digit_def)

lemma dropWhile_digit_ones: "dropWhile is_digit (replicate n 49 @ [93]) = [93]"
  by (induction n) (simp_all add: is_digit_def)

lemma match_number_ones:
  "match_number (49 # replicate n 49 @ [93]) = Some (49 # replicate n 49, [], [], [93])"
  by (simp add: match_number_def match_integer_def match_frac_def match_exp_def
      takeWhile_digit_ones dropWhile_digit_ones)

lemma parse_int_too_long:
  assumes "640 < length ds" "0 < max_str_digits ip" "max_str_digits ip < length ds"
    "ds \<noteq> []" "hd ds \<noteq> 45"
  shows "parse_int ip ds =
     Inl (Exc ValueError
             (str ''Exceeds the limit ('' @ show_nat (max_str_digits ip) @
              str '' digits) for integer string conversion: value has '' @
              show_nat (length ds) @
              str '' digits; use sys.set_int_max_str_digits() to increase the limit''))"
  using assms by (cases ds) (simp_all add: parse_int_def)

lemma scan_once_ones:
  assumes "640 < Suc n" "0 < max_str_digits ip" "max_str_digits ip < Suc n"
  shows "scan_once ip d (49 # replicate n 49 @ [93]) =
     Inl (Exc ValueError
             (str ''Exceeds the limit ('' @ show_nat (max_str_digits ip) @
              str '' digits) for integer string conversion: value has '' @
              show_nat (Suc n) @
              str '' digits; use sys.set_int_max_str_digits() to increase the limit''))"
  using parse_int_too_long[of "49 # replicate n 49" ip] assms
  by (simp add: scan_once.simps(2) match_number_ones)

lemma json_loads_ones:
  assumes "640 < Suc n" "0 < max_str_digits ip" "max_str_digits ip < Suc n" "0 < max_depth ip"
  shows "json_loads ip (91 # 49 # replicate n 49 @ [93]) =
     Inl (Exc ValueError
             (str ''Exceeds the limit ('' @ show_nat (max_str_digits ip) @
              str '' digits) for integer string conversion: value has '' @
              show_nat (Suc n) @
              str '' digits; use sys.set_int_max_str_digits() to increase the limit''))"
proof -
  from assms(4) obtain d' where d: "max_depth ip = Suc d'" by (cases "max_depth ip") auto
  show ?thesis
    using scan_once_ones[OF assms(1-3), of d']
    by (simp add: json_loads_def skip_ws_def is_json_ws_def scan_once.simps(2) d
        parse_array.simps[of ip d' "[]"])
qed

lemma parse_objects_ones:
  assumes "640 < Suc n" "0 < max_str_digits ip" "max_str_digits ip < Suc n" "0 < max_depth ip"
  shows "parse_objects_from_response ip (91 # 49 # replicate n 49 @ [93]) =
     Inl (Exc ValueError
             (str ''Exceeds the limit ('' @ show_nat (max_str_digits ip) @
              str '' digits) for integer string conversion: value has '' @
              show_nat (Suc n) @
              str '' digits; use sys.set_int_max_str_digits() to increase the limit''))"
proof -
  have f: "search_fence (91 # 49 # replicate n 49 @ [93]) = None"
    by (rule search_fence_needs_backtick) simp
  have b: "search_bare (91 # (49 # replicate n 49) @ 93 # []) =
      Some (91 # (49 # replicate n 49) @ [93])"
    by (rule search_bare_first_bracket) simp
  show ?thesis
    using f b json_loads_ones[OF assms]
    by (simp add: parse_objects_cases except_json_attr_def)
qed

lemma show_nat_4300: "show_nat 4300 = str ''4300''"
  by (simp add: show_nat.simps)

lemma show_nat_4301: "show_nat 4301 = str ''4301''"
  by (simp add: show_nat.simps)

lemmas json_eval =
  skip_ws_def is_json_ws_def match_number_def match_integer_def match_frac_def match_exp_def
  parse_int_def int_of_digits_def is_digit_def dict_def default_interp_def
  json_loads_def json_error_def scan_once.simps(2) parse_array.simps parse_object.simps

lemmas rx_eval =
  search_fence_def search_bare_def fence_pattern_def bare_pattern_def between_def is_space_def

section \<open>The claims about the extraction step\<close>

text \<open>
  C9: there is a response text holding a valid JSON array of \<open>{object, bbox_2d}\<close> records,
  with no fence, on which the extraction step returns the empty list: the bare pattern
  stops at the first closing bracket, which is the one of the nested \<open>bbox_2d\<close> array, and
  the text cut there is not valid JSON.
\<close>

theorem C9_bare_pattern_truncates_nested_array:
  \<open>json_loads default_interp (str ''[{"object": "a", "bbox_2d": [1, 2, 3, 4]}]'') =
     Inr (JArray [JObject [(str ''object'', JString (str ''a'')),
                           (str ''bbox_2d'', JArray [JInt 1, JInt 2, JInt 3, JInt 4])]]) \<and>
   search_fence (str ''[{"object": "a", "bbox_2d": [1, 2, 3, 4]}]'') = None \<and>
   search_bare (str ''[{"object": "a", "bbox_2d": [1, 2, 3, 4]}]'') =
     Some (str ''[{"object": "a", "bbox_2d": [1, 2, 3, 4]'') \<and>
   json_loads default_interp (str ''[{"object": "a", "bbox_2d": [1, 2, 3, 4]'') =
     Inl (Exc JSONDecodeError (str ''Expecting '' @ [39, 44, 39] @ str '' delimiter'')) \<and>
   parse_objects_from_response default_interp
     (str ''[{"object": "a", "bbox_2d": [1, 2, 3, 4]}]'') = Inr (JArray [])\<close>
proof -
  have a: \<open>json_loads default_interp (str ''[{"object": "a", "bbox_2d": [1, 2, 3, 4]}]'') =
     Inr (JArray [JObject [(str ''object'', JString (str ''a'')),
                           (str ''bbox_2d'', JArray [JInt 1, JInt 2, JInt 3, JInt 4])]])\<close>
    by (simp add: json_eval)
  have b: \<open>search_fence (str ''[{"object": "a", "bbox_2d": [1, 2, 3, 4]}]'') = None\<close>
    by (simp add: rx_eval)
  have c: \<open>search_bare (str ''[{"object": "a", "bbox_2d": [1, 2, 3, 4]}]'') =
     Some (str ''[{"object": "a", "bbox_2d": [1, 2, 3, 4]'')\<close>
    by (simp add: rx_eval)
  have d: \<open>json_loads default_interp (str ''[{"object": "a", "bbox_2d": [1, 2, 3, 4]'') =
     Inl (Exc JSONDecodeError (str ''Expecting '' @ [39, 44, 39] @ str '' delimiter''))\<close>
    by (simp add: json_eval)
  have e: \<open>parse_objects_from_response default_interp
     (str ''[{"object": "a", "bbox_2d": [1, 2, 3, 4]}]'') = Inr (JArray [])\<close>
    unfolding parse_objects_from_response_def b c option.case d
    by (simp add: except_json_attr_def)
  from a b c d e show ?thesis by blast
qed

text \<open>
  What the spec calls a detection record: an object with a label under \<open>object\<close> and,
  under \<open>bbox_2d\<close>, a list of exactly four numbers.
\<close>

definition is_number :: "json \<Rightarrow> bool" where
  "is_number v = (case v of JInt i \<Rightarrow> True | JFloat x \<Rightarrow> True | _ \<Rightarrow> False)"

definition is_detection_record :: "json \<Rightarrow> bool" where
  "is_detection_record v =
     (case v of
        JObject kvs \<Rightarrow>
          (case (map_of kvs (str ''object''), map_of kvs (str ''bbox_2d'')) of
             (Some label, Some (JArray cs)) \<Rightarrow> length cs = 4 \<and> list_all is_number cs
           | _ \<Rightarrow> False)
      | _ \<Rightarrow> False)"

text \<open>
  C1: the extraction step applies two strategies in order. When the fenced pattern matches,
  the result is what parsing the fenced array gives (the empty list when parsing fails),
  and the text parsed is a bracketed text standing between the opening fence and a closing
  fence, whitespace apart. Only when the fenced pattern does not match is the bare pattern
  tried, and then the result is what parsing the bracketed substring it found gives. When
  neither matches the result is the empty list.
\<close>

theorem C1_two_ordered_strategies:
  "(search_fence t = Some g \<longrightarrow>
      parse_objects_from_response ip t = except_json_attr (json_loads ip g) \<and>
      (\<exists>pre w1 body w2 post.
         t = pre @ str ''```json'' @ w1 @ g @ w2 @ str ''```'' @ post \<and> g = 91 # body @ [93] \<and>
         list_all is_space w1 \<and> list_all is_space w2)) \<and>
   (search_fence t = None \<and> search_bare t = Some g \<longrightarrow>
      parse_objects_from_response ip t = except_json_attr (json_loads ip g) \<and>
      (\<exists>pre body post. t = pre @ g @ post \<and> g = 91 # body @ [93])) \<and>
   (search_fence t = None \<and> search_bare t = None \<longrightarrow>
      parse_objects_from_response ip t = Inr (JArray []))"
proof (intro conjI impI)
  assume a: "search_fence t = Some g"
  then show "parse_objects_from_response ip t = except_json_attr (json_loads ip g)"
    by (simp add: parse_objects_cases)
  from search_fence_shape[OF a]
  show "\<exists>pre w1 body w2 post.
         t = pre @ str ''```json'' @ w1 @ g @ w2 @ str ''```'' @ post \<and> g = 91 # body @ [93] \<and>
         list_all is_space w1 \<and> list_all is_space w2"
    unfolding list_all_iff by blast
next
  assume a: "search_fence t = None \<and> search_bare t = Some g"
  then show "parse_objects_from_response ip t = except_json_attr (json_loads ip g)"
    by (simp add: parse_objects_cases)
  from a search_bare_shape[of t g]
  show "\<exists>pre body post. t = pre @ g @ post \<and> g = 91 # body @ [93]"
    by blast
next
  assume "search_fence t = None \<and> search_bare t = None"
  then show "parse_objects_from_response ip t = Inr (JArray [])"
    by (simp add: parse_objects_cases)
qed

theorem C1_two_ordered_strategies_witness:
  \<open>search_fence (str ''```json [1] ``` or [2]'') = Some (str ''[1]'') \<and>
   parse_objects_from_response default_interp (str ''```json [1] ``` or [2]'') =
     Inr (JArray [JInt 1]) \<and>
   search_fence (str ''```json [1] or [2]'') = None \<and>
   search_bare (str ''```json [1] or [2]'') = Some (str ''[1]'') \<and>
   parse_objects_from_response default_interp (str ''```json [1] or [2]'') =
     Inr (JArray [JInt 1]) \<and>
   search_fence (str ''no objects'') = None \<and> search_bare (str ''no objects'') = None \<and>
   parse_objects_from_response default_interp (str ''no objects'') = Inr (JArray [])\<close>
proof -
  have f1: \<open>search_fence (str ''```json [1] ``` or [2]'') = Some (str ''[1]'')\<close>
    by (simp add: rx_eval)
  have f2: \<open>search_fence (str ''```json [1] or [2]'') = None\<close>
    by (simp add: rx_eval)
  have b2: \<open>search_bare (str ''```json [1] or [2]'') = Some (str ''[1]'')\<close>
    by (simp add: rx_eval)
  have f3: \<open>search_fence (str ''no objects'') = None\<close>
    by (simp add: rx_eval)
  have b3: \<open>search_bare (str ''no objects'') = None\<close>
    by (simp add: rx_eval)
  have l: \<open>except_json_attr (json_loads default_interp (str ''[1]'')) = Inr (JArray [JInt 1])\<close>
    by (simp add: json_eval except_json_attr_def)
  from C1_two_ordered_strategies[of \<open>str ''```json [1] ``` or [2]''\<close> \<open>str ''[1]''\<close> default_interp]
    C1_two_ordered_strategies[of \<open>str ''```json [1] or [2]''\<close> \<open>str ''[1]''\<close> default_interp]
    C1_two_ordered_strategies[of \<open>str ''no objects''\<close> \<open>[]\<close> default_interp]
    f1 f2 b2 f3 b3 l
  show ?thesis by simp
qed

text \<open>
  C3 as stated fails: the elements returned are whatever the array in the text holds. On
  the reply \<open>["shirt", "watch"]\<close> the step returns two strings, no detection record.
\<close>

theorem C3_counterexample:
  \<open>parse_objects_from_response default_interp (str ''["shirt", "watch"]'') =
     Inr (JArray [JString (str ''shirt''), JString (str ''watch'')]) \<and>
   \<not> is_detection_record (JString (str ''shirt''))\<close>
proof -
  have f: \<open>search_fence (str ''["shirt", "watch"]'') = None\<close>
    by (simp add: rx_eval)
  have b: \<open>search_bare (str ''["shirt", "watch"]'') = Some (str ''["shirt", "watch"]'')\<close>
    by (simp add: rx_eval)
  have l: \<open>json_loads default_interp (str ''["shirt", "watch"]'') =
      Inr (JArray [JString (str ''shirt''), JString (str ''watch'')])\<close>
    by (simp add: json_eval)
  have \<open>parse_objects_from_response default_interp (str ''["shirt", "watch"]'') =
     Inr (JArray [JString (str ''shirt''), JString (str ''watch'')])\<close>
    unfolding parse_objects_from_response_def f b option.case l
    by (simp add: except_json_attr_def)
  then show ?thesis by (simp add: is_detection_record_def)
qed

text \<open>
  C3, amended: whenever the extraction step returns, it returns a list, and the list is the
  array that \<open>json.loads\<close> made of the matched text, element for element and unchecked.
  The list is empty only when that array is empty, when \<open>json.loads\<close> rejected the matched
  text with one of the two exceptions the step catches, or when neither pattern matched.
\<close>

theorem C3_result_is_a_list:
  assumes "parse_objects_from_response ip t = Inr v"
  shows "\<exists>xs. v = JArray xs \<and>
     (\<forall>g. search_fence t = Some g \<or> (search_fence t = None \<and> search_bare t = Some g) \<longrightarrow>
        json_loads ip g = Inr (JArray xs) \<or>
        (xs = [] \<and>
         (\<exists>msg. json_loads ip g = Inl (Exc JSONDecodeError msg) \<or>
                 json_loads ip g = Inl (Exc AttributeError msg)))) \<and>
     (search_fence t = None \<and> search_bare t = None \<longrightarrow> xs = [])"
proof -
  from parse_objects_is_array[OF assms] obtain xs where v: "v = JArray xs" ..
  have a: "json_loads ip g = Inr (JArray xs) \<or>
        (xs = [] \<and>
         (\<exists>msg. json_loads ip g = Inl (Exc JSONDecodeError msg) \<or>
                 json_loads ip g = Inl (Exc AttributeError msg)))"
    if "search_fence t = Some g \<or> (search_fence t = None \<and> search_bare t = Some g)" for g
  proof -
    from that assms have "except_json_attr (json_loads ip g) = Inr v"
      by (auto simp: parse_objects_cases)
    then show ?thesis
      unfolding except_json_attr_Inr v by auto
  qed
  have b: "xs = []" if "search_fence t = None \<and> search_bare t = None"
    using that assms v by (simp add: parse_objects_cases)
  from v a b show ?thesis by blast
qed

theorem C3_result_is_a_list_witness:
  \<open>parse_objects_from_response default_interp (str ''```json [{"object": "hat", "bbox_2d": [1, 2, 30, 40]}] ```'') =
     Inr (JArray [JObject [(str ''object'', JString (str ''hat'')),
                           (str ''bbox_2d'', JArray [JInt 1, JInt 2, JInt 30, JInt 40])]]) \<and>
   search_fence (str ''```json [{"object": "hat", "bbox_2d": [1, 2, 30, 40]}] ```'') =
      Some (str ''[{"object": "hat", "bbox_2d": [1, 2, 30, 40]}]'') \<and>
   (\<exists>xs. JArray [JObject [(str ''object'', JString (str ''hat'')),
                           (str ''bbox_2d'', JArray [JInt 1, JInt 2, JInt 30, JInt 40])]] = JArray xs \<and>
      json_loads default_interp (str ''[{"object": "hat", "bbox_2d": [1, 2, 30, 40]}]'') =
        Inr (JArray xs))\<close>
proof -
  have f: \<open>search_fence (str ''```json [{"object": "hat", "bbox_2d": [1, 2, 30, 40]}] ```'') =
      Some (str ''[{"object": "hat", "bbox_2d": [1, 2, 30, 40]}]'')\<close>
    by (simp add: rx_eval)
  have l: \<open>json_loads default_interp (str ''[{"object": "hat", "bbox_2d": [1, 2, 30, 40]}]'') =
      Inr (JArray [JObject [(str ''object'', JString (str ''hat'')),
                           (str ''bbox_2d'', JArray [JInt 1, JInt 2, JInt 30, JInt 40])]])\<close>
    by (simp add: json_eval)
  have p: \<open>parse_objects_from_response default_interp (str ''```json [{"object": "hat", "bbox_2d": [1, 2, 30, 40]}] ```'') =
     Inr (JArray [JObject [(str ''object'', JString (str ''hat'')),
                           (str ''bbox_2d'', JArray [JInt 1, JInt 2, JInt 30, JInt 40])]])\<close>
    unfolding parse_objects_from_response_def f option.case l
    by (simp add: except_json_attr_def)
  from C3_result_is_a_list[OF p] f l p show ?thesis by simp
qed

text \<open>
  C2: the step is written to return the empty list whenever the text found does not parse,
  but its handler names \<open>JSONDecodeError\<close> and \<open>AttributeError\<close> only. On the reply made of
  4301 digits \<open>1\<close> between brackets the bare pattern finds the whole text, \<open>json.loads\<close>
  hands the digits to \<open>int\<close>, which refuses a literal of more than 4300 digits with a
  \<open>ValueError\<close>, and the step raises that exception instead of returning.
\<close>

theorem C2_long_integer_literal_raises:
  "search_fence (91 # replicate 4301 49 @ [93]) = None \<and>
   search_bare (91 # replicate 4301 49 @ [93]) = Some (91 # replicate 4301 49 @ [93]) \<and>
   parse_objects_from_response default_interp (91 # replicate 4301 49 @ [93]) =
     Inl (Exc ValueError
       (str ''Exceeds the limit (4300 digits) for integer string conversion: value has 4301 digits; use sys.set_int_max_str_digits() to increase the limit''))"
proof -
  have r: "replicate 4301 (49::nat) = 49 # replicate 4300 49"
    by (simp add: replicate_Suc[symmetric] del: replicate_Suc)
  have f: "search_fence (91 # replicate 4301 49 @ [93]) = None"
    by (rule search_fence_needs_backtick) simp
  have b: "search_bare (91 # replicate 4301 49 @ 93 # []) = Some (91 # replicate 4301 49 @ [93])"
    by (rule search_bare_first_bracket) simp
  have p: "parse_objects_from_response default_interp (91 # replicate 4301 49 @ [93]) =
     Inl (Exc ValueError
       (str ''Exceeds the limit (4300 digits) for integer string conversion: value has 4301 digits; use sys.set_int_max_str_digits() to increase the limit''))"
    unfolding r
    using parse_objects_ones[of 4300 default_interp]
    by (simp add: default_interp_def show_nat_4300 show_nat_4301)
  from f b p show ?thesis by simp
qed

section \<open>Facts about the detection step and the endpoint\<close>

lemma those_as_dict: "those (map as_dict xs) = Some ds \<Longrightarrow> xs = map JObject ds"
  by (induction xs arbitrary: ds) (auto simp: as_dict_def split: option.splits json.splits)

lemma validate_objects_Inr: "validate_objects env v = Inr ds \<Longrightarrow> v = JArray (map JObject ds)"
  by (auto simp: validate_objects_def split: json.splits option.splits dest: those_as_dict)

lemma detect_objects_with_bad_type:
  "\<not> is_image_type (content_type file) \<Longrightarrow>
   detect_objects_with run env file request w =
     (Inl (HTTPException 400 (str ''File must be an image'')), w)"
  by (simp add: detect_objects_with_def)

lemma detect_objects_with_bad_image:
  "is_image_type (content_type file) \<Longrightarrow> open_and_verify env (contents file) = Inl e \<Longrightarrow>
   detect_objects_with run env file request w =
     (Inl (HTTPException 400 (str ''Invalid image file: '' @ exc_str e)), w)"
  by (simp add: detect_objects_with_def)

lemma detect_objects_with_valid:
  assumes "is_image_type (content_type upload)"
    and "open_and_verify env (contents upload) = Inr img"
    and "run img (prompt (request_or_default request)) (max_tokens (request_or_default request))
           (temperature (request_or_default request))
           ((files w)(temp_path env (files w) \<mapsto> contents upload)) = (outcome, fs)"
  shows "detect_objects_with run env upload request w =
     ((case outcome of
         Inl e \<Rightarrow> Inr (internal_server_error e)
       | Inr result \<Rightarrow> Inr (response_of result)),
      \<lparr>files = fs(temp_path env (files w) := None),
       trace = trace w @
         [Wrote (temp_path env (files w)) (contents upload),
          Inference img (prompt (request_or_default request))
            (max_tokens (request_or_default request))
            (temperature (request_or_default request))] @
         (if fs (temp_path env (files w)) = None then []
          else [Unlinked (temp_path env (files w))])\<rparr>)"
  using assms
  by (auto simp: detect_objects_with_def Let_def write_temp_def call_detection_def
      remove_temp_def split: sum.splits)

lemma run_object_detection_returns:
  "\<exists>r. run_object_detection env img p m t model = Inr r"
  by (auto simp: run_object_detection_def try_except_def Let_def split: sum.splits prod.splits)

lemma run_object_detection_success:
  assumes "run_object_detection env img p m t model = Inr r"
    and "ObjectDetectionResult.success r"
  shows "\<exists>mo pr c pt g ds.
           load env model = Inr (mo, pr) \<and> load_config env model = Inr c \<and>
           apply_chat_template env pr c (messages img p) = Inr pt \<and>
           generate env mo pr pt m t True = Inr g \<and>
           parse_objects_from_response (limits env) (response_str env g) =
             Inr (JArray (map JObject ds)) \<and>
           r = succeeded ds (response_str env g)"
  using assms
  by (auto simp: run_object_detection_def try_except_def Let_def failure_def succeeded_def
      split: sum.splits prod.splits dest!: validate_objects_Inr)

lemma run_object_detection_failure:
  assumes "run_object_detection env img p m t model = Inr r"
    and "\<not> ObjectDetectionResult.success r"
  shows "\<exists>msg. r = failure msg \<and> msg \<noteq> []"
  using assms
  by (auto simp: run_object_detection_def try_except_def Let_def succeeded_def
      split: sum.splits prod.splits)

subsection \<open>The sample environment evaluated\<close>

lemma sample_parse:
  "parse_objects_from_response default_interp sample_reply = Inr (JArray (map JObject sample_objects))"
proof -
  have f: \<open>search_fence (str ''```json [{"object": "hat", "bbox_2d": [1, 2, 30, 40]}] ```'') =
      Some (str ''[{"object": "hat", "bbox_2d": [1, 2, 30, 40]}]'')\<close>
    by (simp add: rx_eval)
  have l: \<open>json_loads default_interp (str ''[{"object": "hat", "bbox_2d": [1, 2, 30, 40]}]'') =
      Inr (JArray [JObject [(str ''object'', JString (str ''hat'')),
                           (str ''bbox_2d'', JArray [JInt 1, JInt 2, JInt 30, JInt 40])]])\<close>
    by (simp add: json_eval)
  show ?thesis
    unfolding parse_objects_from_response_def sample_reply_def f option.case l
    by (simp add: except_json_attr_def sample_objects_def)
qed

lemma sample_validate:
  "validate_objects sample_env (JArray (map JObject sample_objects)) = Inr sample_objects"
  by (simp add: validate_objects_def as_dict_def sample_objects_def)

lemma sample_run:
  "run_object_detection sample_env sample_image p m t default_model =
     Inr (succeeded sample_objects sample_reply)"
  using sample_parse sample_validate
  by (simp add: run_object_detection_def try_except_def sample_env_def)

lemma offline_run:
  "run_object_detection offline_env img p m t model =
     Inr (failure (str ''Error loading model: no such model''))"
  by (simp add: run_object_detection_def try_except_def sample_env_def offline_env_def)

lemma sample_upload_valid:
  "is_image_type (content_type sample_file)"
  "open_and_verify sample_env (contents sample_file) = Inr sample_image"
  by (simp_all add: is_image_type_def sample_file_def open_and_verify_def sample_env_def
      sample_image_def)

lemma offline_upload_valid:
  "is_image_type (content_type sample_file)"
  "open_and_verify offline_env (contents sample_file) = Inr sample_image"
  by (simp_all add: is_image_type_def sample_file_def open_and_verify_def sample_env_def
      sample_image_def offline_env_def)

lemma sample_temp_path: "temp_path sample_env fs = str ''/tmp/tmpk3v9x2.jpg''"
  by (simp add: temp_path_def sample_env_def)

lemma sample_request: "request_or_default None =
    \<lparr>prompt = str ''detect all the objects like sunglasses, shirts, trousers or watches in the image'',
     max_tokens = 1000, temperature = 0.7\<rparr>"
  by (simp add: request_or_default_def new_ObjectDetectionRequest_def)


section \<open>The claims about the detection step and the endpoint\<close>



text \<open>
  C4: an upload whose content type is missing, empty or does not begin with \<open>image/\<close> is
  rejected with \<open>HTTPException\<close> 400 \<open>File must be an image\<close>, and an upload whose bytes
  Pillow cannot open and verify is rejected with \<open>HTTPException\<close> 400
  \<open>Invalid image file: ...\<close>. In both cases the world is left as it was: no temporary
  file is written and the detection step is not called, whatever the step is.
\<close>

theorem C4_invalid_upload_rejected_before_inference:
  "(\<not> is_image_type (content_type upload) \<longrightarrow>
      detect_objects_with run env upload request w =
        (Inl (HTTPException 400 (str ''File must be an image'')), w)) \<and>
   (is_image_type (content_type upload) \<and> open_and_verify env (contents upload) = Inl e \<longrightarrow>
      detect_objects_with run env upload request w =
        (Inl (HTTPException 400 (str ''Invalid image file: '' @ exc_str e)), w)) \<and>
   (\<not> is_image_type (content_type upload) \<or> open_and_verify env (contents upload) = Inl e \<longrightarrow>
      status_code (fst (detect_objects_with run env upload request w)) = 400 \<and>
      trace (snd (detect_objects_with run env upload request w)) = trace w \<and>
      files (snd (detect_objects_with run env upload request w)) = files w)"
proof -
  let ?R = "detect_objects_with run env upload request w"
  have a: "?R = (Inl (HTTPException 400 (str ''File must be an image'')), w)"
    if "\<not> is_image_type (content_type upload)"
    using that by (rule detect_objects_with_bad_type)
  have b: "?R = (Inl (HTTPException 400 (str ''Invalid image file: '' @ exc_str e)), w)"
    if "is_image_type (content_type upload) \<and> open_and_verify env (contents upload) = Inl e"
    using that by (simp add: detect_objects_with_bad_image)
  have c: "status_code (fst ?R) = 400 \<and> trace (snd ?R) = trace w \<and> files (snd ?R) = files w"
    if "\<not> is_image_type (content_type upload) \<or> open_and_verify env (contents upload) = Inl e"
  proof (cases "is_image_type (content_type upload)")
    case False
    from a[OF False] show ?thesis by simp
  next
    case True
    with that b show ?thesis by simp
  qed
  from a b c show ?thesis by blast
qed

theorem C4_invalid_upload_rejected_before_inference_witness:
  "detect_objects_with sample_detector sample_env
     \<lparr>content_type = Some (str ''text/plain''), contents = [255, 216, 255, 224]\<rparr> None sample_world =
     (Inl (HTTPException 400 (str ''File must be an image'')), sample_world) \<and>
   detect_objects_with sample_detector sample_env
     \<lparr>content_type = None, contents = [255, 216, 255, 224]\<rparr> None sample_world =
     (Inl (HTTPException 400 (str ''File must be an image'')), sample_world) \<and>
   detect_objects_with sample_detector sample_env
     \<lparr>content_type = Some (str ''image/png''), contents = [1, 2, 3]\<rparr> None sample_world =
     (Inl (HTTPException 400 (str ''Invalid image file: cannot identify image file'')),
      sample_world)"
proof -
  have t1: "\<not> is_image_type (content_type
      \<lparr>content_type = Some (str ''text/plain''), contents = [255, 216, 255, 224]\<rparr>)"
    by (simp add: is_image_type_def)
  have t2: "\<not> is_image_type (content_type \<lparr>content_type = None, contents = [255, 216, 255, 224]\<rparr>)"
    by (simp add: is_image_type_def)
  have t3: "is_image_type (content_type \<lparr>content_type = Some (str ''image/png''), contents = [1, 2, 3]\<rparr>) \<and>
      open_and_verify sample_env (contents \<lparr>content_type = Some (str ''image/png''), contents = [1, 2, 3]\<rparr>) =
      Inl (Exc OtherError (str ''cannot identify image file''))"
    by (simp add: is_image_type_def open_and_verify_def sample_env_def)
  note c1 = C4_invalid_upload_rejected_before_inference[where
      upload = "\<lparr>content_type = Some (str ''text/plain''), contents = [255, 216, 255, 224]\<rparr>"
      and run = sample_detector and env = sample_env and request = None and w = sample_world,
      THEN conjunct1, rule_format, OF t1]
  note c2 = C4_invalid_upload_rejected_before_inference[where
      upload = "\<lparr>content_type = None, contents = [255, 216, 255, 224]\<rparr>"
      and run = sample_detector and env = sample_env and request = None and w = sample_world,
      THEN conjunct1, rule_format, OF t2]
  note c3 = C4_invalid_upload_rejected_before_inference[where
      upload = "\<lparr>content_type = Some (str ''image/png''), contents = [1, 2, 3]\<rparr>"
      and run = sample_detector and env = sample_env and request = None and w = sample_world
      and e = "Exc OtherError (str ''cannot identify image file'')",
      THEN conjunct2, THEN conjunct1, rule_format, OF t3]
  from c1 c2 c3 show ?thesis by simp
qed

text \<open>
  C5: for an upload that passes both checks the endpoint returns a payload. It is the
  success payload, with the objects parsed from the reply and the reply itself, when
  \<open>run_object_detection\<close> reports success, and otherwise the failure payload with the
  non-empty message of the failed result. For any detection step that raises, the handler
  returns the failure payload with \<open>Internal server error: \<close> followed by the text of
  the exception, instead of letting the exception through.
\<close>

theorem C5_validated_request_gets_a_payload:
  "(is_image_type (content_type upload) \<and> open_and_verify env (contents upload) = Inr img \<longrightarrow>
      (\<exists>r payload.
         run_object_detection env img (prompt (request_or_default request))
           (max_tokens (request_or_default request)) (temperature (request_or_default request))
           default_model = Inr r \<and>
         fst (detect_objects env upload request w) = Inr payload \<and>
         (if ObjectDetectionResult.success r
          then (\<exists>g ds.
                  parse_objects_from_response (limits env) (response_str env g) =
                    Inr (JArray (map JObject ds)) \<and>
                  r = succeeded ds (response_str env g) \<and>
                  payload = \<lparr>success = True, objects = Some ds,
                              response_text = Some (response_str env g), error_message = None\<rparr>)
          else (\<exists>msg. msg \<noteq> [] \<and> r = failure msg \<and>
                  payload = \<lparr>success = False, objects = None, response_text = None,
                              error_message = Some msg\<rparr>)))) \<and>
   (is_image_type (content_type upload) \<and> open_and_verify env (contents upload) = Inr img \<and>
    run img (prompt (request_or_default request)) (max_tokens (request_or_default request))
      (temperature (request_or_default request))
      ((files w)(temp_path env (files w) \<mapsto> contents upload)) = (Inl e, fs) \<longrightarrow>
      fst (detect_objects_with run env upload request w) =
        Inr \<lparr>success = False, objects = None, response_text = None,
             error_message = Some (str ''Internal server error: '' @ exc_str e)\<rparr>)"
proof (intro conjI impI)
  assume v: "is_image_type (content_type upload) \<and> open_and_verify env (contents upload) = Inr img"
  let ?rq = "request_or_default request"
  from run_object_detection_returns obtain r where
    r: "run_object_detection env img (prompt ?rq) (max_tokens ?rq) (temperature ?rq)
          default_model = Inr r" by blast
  have p: "fst (detect_objects env upload request w) = Inr (response_of r)"
    unfolding detect_objects_def
    using detect_objects_with_valid[where
        run = "\<lambda>img p m t fs. (run_object_detection env img p m t default_model, fs)"
        and env = env and upload = upload and request = request and w = w and img = img
        and outcome = "Inr r"
        and fs = "(files w)(temp_path env (files w) \<mapsto> contents upload)"] v r
    by simp
  show "\<exists>r payload.
         run_object_detection env img (prompt (request_or_default request))
           (max_tokens (request_or_default request)) (temperature (request_or_default request))
           default_model = Inr r \<and>
         fst (detect_objects env upload request w) = Inr payload \<and>
         (if ObjectDetectionResult.success r
          then (\<exists>g ds.
                  parse_objects_from_response (limits env) (response_str env g) =
                    Inr (JArray (map JObject ds)) \<and>
                  r = succeeded ds (response_str env g) \<and>
                  payload = \<lparr>success = True, objects = Some ds,
                              response_text = Some (response_str env g), error_message = None\<rparr>)
          else (\<exists>msg. msg \<noteq> [] \<and> r = failure msg \<and>
                  payload = \<lparr>success = False, objects = None, response_text = None,
                              error_message = Some msg\<rparr>))"
  proof (cases "ObjectDetectionResult.success r")
    case True
    from run_object_detection_success[OF r True] obtain g ds where
      "parse_objects_from_response (limits env) (response_str env g) =
         Inr (JArray (map JObject ds))" "r = succeeded ds (response_str env g)" by blast
    with r p True show ?thesis
      by (auto simp: response_of_def succeeded_def)
  next
    case False
    from run_object_detection_failure[OF r False] obtain msg where
      "r = failure msg" "msg \<noteq> []" by blast
    with r p False show ?thesis
      by (auto simp: response_of_def failure_def)
  qed
next
  assume "is_image_type (content_type upload) \<and> open_and_verify env (contents upload) = Inr img \<and>
    run img (prompt (request_or_default request)) (max_tokens (request_or_default request))
      (temperature (request_or_default request))
      ((files w)(temp_path env (files w) \<mapsto> contents upload)) = (Inl e, fs)"
  then show "fst (detect_objects_with run env upload request w) =
        Inr \<lparr>success = False, objects = None, response_text = None,
             error_message = Some (str ''Internal server error: '' @ exc_str e)\<rparr>"
    using detect_objects_with_valid[where run = run and env = env and upload = upload
        and request = request and w = w and img = img and outcome = "Inl e" and fs = fs]
    by (simp add: internal_server_error_def)
qed

theorem C5_validated_request_gets_a_payload_witness:
  "fst (detect_objects sample_env sample_file None sample_world) =
     Inr \<lparr>success = True, objects = Some sample_objects, response_text = Some sample_reply,
          error_message = None\<rparr> \<and>
   fst (detect_objects offline_env sample_file None sample_world) =
     Inr \<lparr>success = False, objects = None, response_text = None,
          error_message = Some (str ''Error loading model: no such model'')\<rparr> \<and>
   fst (detect_objects_with raising_detector sample_env sample_file None sample_world) =
     Inr \<lparr>success = False, objects = None, response_text = None,
          error_message = Some (str ''Internal server error: boom'')\<rparr>"
proof -
  let ?fs = "(files sample_world)(temp_path sample_env (files sample_world) \<mapsto> contents sample_file)"
  have r1: "raising_detector sample_image (prompt (request_or_default None))
      (max_tokens (request_or_default None)) (temperature (request_or_default None)) ?fs =
      (Inl (Exc OtherError (str ''boom'')), ?fs)"
    by (simp add: raising_detector_def)
  from C5_validated_request_gets_a_payload[where env = sample_env and upload = sample_file
      and request = None and w = sample_world and img = sample_image, THEN conjunct1]
    sample_upload_valid sample_run
  have a: "fst (detect_objects sample_env sample_file None sample_world) =
     Inr \<lparr>success = True, objects = Some sample_objects, response_text = Some sample_reply,
          error_message = None\<rparr>"
    by (auto simp: succeeded_def)
  from C5_validated_request_gets_a_payload[where env = offline_env and upload = sample_file
      and request = None and w = sample_world and img = sample_image, THEN conjunct1]
    offline_upload_valid offline_run
  have b: "fst (detect_objects offline_env sample_file None sample_world) =
     Inr \<lparr>success = False, objects = None, response_text = None,
          error_message = Some (str ''Error loading model: no such model'')\<rparr>"
    by (auto simp: failure_def)
  from C5_validated_request_gets_a_payload[where env = sample_env and upload = sample_file
      and request = None and w = sample_world and img = sample_image
      and run = raising_detector and e = "Exc OtherError (str ''boom'')" and fs = ?fs,
      THEN conjunct2] sample_upload_valid r1
  have c: "fst (detect_objects_with raising_detector sample_env sample_file None sample_world) =
     Inr \<lparr>success = False, objects = None, response_text = None,
          error_message = Some (str ''Internal server error: boom'')\<rparr>"
    by simp
  from a b c show ?thesis by simp
qed

text \<open>
  C7: a field of the request that is not given takes its default: the prompt
  \<open>detect all the objects like sunglasses, shirts, trousers or watches in the image\<close>,
  1000 tokens, temperature 0.7. For a valid upload sent without the request parameter,
  the detection step is called exactly once, with these three values, and its outcome is
  the one the handler turns into the payload.
\<close>

theorem C7_defaults_are_passed_to_detection:
  "prompt (new_ObjectDetectionRequest None mt tp) =
     str ''detect all the objects like sunglasses, shirts, trousers or watches in the image'' \<and>
   max_tokens (new_ObjectDetectionRequest pr None tp) = 1000 \<and>
   temperature (new_ObjectDetectionRequest pr mt None) = 0.7 \<and>
   (is_image_type (content_type upload) \<and> open_and_verify env (contents upload) = Inr img \<and>
    run img
      (str ''detect all the objects like sunglasses, shirts, trousers or watches in the image'')
      1000 0.7 ((files w)(temp_path env (files w) \<mapsto> contents upload)) = (outcome, fs) \<longrightarrow>
      fst (detect_objects_with run env upload None w) =
        (case outcome of
           Inl e \<Rightarrow> Inr (internal_server_error e)
         | Inr result \<Rightarrow> Inr (response_of result)) \<and>
      filter (\<lambda>ev. case ev of Inference i p m t \<Rightarrow> True | _ \<Rightarrow> False)
        (trace (snd (detect_objects_with run env upload None w))) =
      filter (\<lambda>ev. case ev of Inference i p m t \<Rightarrow> True | _ \<Rightarrow> False) (trace w) @
        [Inference img
           (str ''detect all the objects like sunglasses, shirts, trousers or watches in the image'')
           1000 0.7])"
proof -
  have d: "request_or_default None =
      \<lparr>prompt = str ''detect all the objects like sunglasses, shirts, trousers or watches in the image'',
       max_tokens = 1000, temperature = 0.7\<rparr>"
    by (simp add: request_or_default_def new_ObjectDetectionRequest_def)
  show ?thesis
    using detect_objects_with_valid[where run = run and env = env and upload = upload and request = None
        and w = w and img = img and outcome = outcome and fs = fs]
    by (auto simp: new_ObjectDetectionRequest_def d)
qed

theorem C7_defaults_are_passed_to_detection_witness:
  "fst (detect_objects_with echo_detector sample_env sample_file None sample_world) =
     Inr \<lparr>success = False, objects = None, response_text = None,
          error_message = Some (str ''detect all the objects like sunglasses, shirts, trousers or watches in the image'')\<rparr> \<and>
   filter (\<lambda>ev. case ev of Inference i p m t \<Rightarrow> True | _ \<Rightarrow> False)
     (trace (snd (detect_objects_with echo_detector sample_env sample_file None sample_world))) =
     [Inference sample_image
        (str ''detect all the objects like sunglasses, shirts, trousers or watches in the image'')
        1000 0.7]"
proof -
  have r: "echo_detector sample_image
      (str ''detect all the objects like sunglasses, shirts, trousers or watches in the image'')
      1000 0.7
      ((files sample_world)(temp_path sample_env (files sample_world) \<mapsto> contents sample_file)) =
      (Inr (failure (str ''detect all the objects like sunglasses, shirts, trousers or watches in the image'')),
       (files sample_world)(temp_path sample_env (files sample_world) \<mapsto> contents sample_file))"
    by (simp add: echo_detector_def)
  from C7_defaults_are_passed_to_detection[where upload = sample_file and env = sample_env
      and img = sample_image and run = echo_detector and w = sample_world
      and outcome = "Inr (failure (str ''detect all the objects like sunglasses, shirts, trousers or watches in the image''))"
      and fs = "(files sample_world)(temp_path sample_env (files sample_world) \<mapsto> contents sample_file)"]
    sample_upload_valid r
  show ?thesis
    by (simp add: response_of_def failure_def sample_world_def)
qed

text \<open>
  C8: for a valid upload the handler writes the uploaded bytes to the temporary file
  before it calls the detection step, the step runs with that file in place, and when the
  handler returns the file does not exist: it is unlinked after the step if the step left
  it there. This holds for every outcome of the step: a success result, a failure result
  or an exception.
\<close>

theorem C8_temporary_file_written_and_deleted:
  assumes "is_image_type (content_type upload)"
    and "open_and_verify env (contents upload) = Inr img"
    and "run img (prompt (request_or_default request)) (max_tokens (request_or_default request))
           (temperature (request_or_default request))
           ((files w)(temp_path env (files w) \<mapsto> contents upload)) = (outcome, fs)"
  shows "files (snd (detect_objects_with run env upload request w)) (temp_path env (files w)) = None \<and>
     files (snd (detect_objects_with run env upload request w)) =
       fs(temp_path env (files w) := None) \<and>
     trace (snd (detect_objects_with run env upload request w)) =
       trace w @
       [Wrote (temp_path env (files w)) (contents upload),
        Inference img (prompt (request_or_default request))
          (max_tokens (request_or_default request)) (temperature (request_or_default request))] @
       (if fs (temp_path env (files w)) = None then []
        else [Unlinked (temp_path env (files w))])"
  by (simp add: detect_objects_with_valid[where run = run, OF assms])

theorem C8_temporary_file_written_and_deleted_witness:
  "files (snd (detect_objects_with raising_detector sample_env sample_file None sample_world))
     (str ''/tmp/tmpk3v9x2.jpg'') = None \<and>
   trace (snd (detect_objects_with raising_detector sample_env sample_file None sample_world)) =
     [Wrote (str ''/tmp/tmpk3v9x2.jpg'') [255, 216, 255, 224],
      Inference sample_image
        (str ''detect all the objects like sunglasses, shirts, trousers or watches in the image'')
        1000 0.7,
      Unlinked (str ''/tmp/tmpk3v9x2.jpg'')] \<and>
   files (snd (detect_objects_with sample_detector sample_env sample_file None sample_world))
     (str ''/tmp/tmpk3v9x2.jpg'') = None \<and>
   trace (snd (detect_objects_with sample_detector sample_env sample_file None sample_world)) =
     [Wrote (str ''/tmp/tmpk3v9x2.jpg'') [255, 216, 255, 224],
      Inference sample_image
        (str ''detect all the objects like sunglasses, shirts, trousers or watches in the image'')
        1000 0.7,
      Unlinked (str ''/tmp/tmpk3v9x2.jpg'')]"
proof -
  let ?fs = "(files sample_world)(temp_path sample_env (files sample_world) \<mapsto> contents sample_file)"
  have r1: "raising_detector sample_image (prompt (request_or_default None))
      (max_tokens (request_or_default None)) (temperature (request_or_default None)) ?fs =
      (Inl (Exc OtherError (str ''boom'')), ?fs)"
    by (simp add: raising_detector_def)
  have r2: "sample_detector sample_image (prompt (request_or_default None))
      (max_tokens (request_or_default None)) (temperature (request_or_default None)) ?fs =
      (Inr (succeeded sample_objects sample_reply), ?fs)"
    by (simp add: sample_detector_def sample_run)
  from C8_temporary_file_written_and_deleted[where run = raising_detector,
      OF sample_upload_valid r1]
    C8_temporary_file_written_and_deleted[where run = sample_detector,
      OF sample_upload_valid r2]
  show ?thesis
    by (simp add: sample_temp_path sample_request sample_world_def sample_file_def)
qed

text \<open>
  C10: for a valid upload whose detection step reports failure, the handler returns the
  failure payload, which is answered with status 200. The status is 400 exactly when the
  content type is not an image type or the bytes cannot be opened and verified, and it
  is 200 for every other request.
\<close>

theorem C10_detection_failure_is_a_normal_response:
  "(is_image_type (content_type upload) \<and> open_and_verify env (contents upload) = Inr img \<and>
    run img (prompt (request_or_default request)) (max_tokens (request_or_default request))
      (temperature (request_or_default request))
      ((files w)(temp_path env (files w) \<mapsto> contents upload)) = (Inr r, fs) \<and>
    \<not> ObjectDetectionResult.success r \<longrightarrow>
      fst (detect_objects_with run env upload request w) =
        Inr \<lparr>success = False, objects = None, response_text = None,
             error_message = ObjectDetectionResult.error_message r\<rparr> \<and>
      status_code (fst (detect_objects_with run env upload request w)) = 200) \<and>
   (status_code (fst (detect_objects_with run env upload request w)) = 400 \<longleftrightarrow>
      \<not> is_image_type (content_type upload) \<or>
      (\<exists>e. open_and_verify env (contents upload) = Inl e)) \<and>
   (status_code (fst (detect_objects_with run env upload request w)) = 200 \<longleftrightarrow>
      is_image_type (content_type upload) \<and>
      (\<exists>img. open_and_verify env (contents upload) = Inr img))"
proof -
  let ?R = "detect_objects_with run env upload request w"
  have a: "fst ?R = Inr \<lparr>success = False, objects = None, response_text = None,
             error_message = ObjectDetectionResult.error_message r\<rparr> \<and> status_code (fst ?R) = 200"
    if "is_image_type (content_type upload)" "open_and_verify env (contents upload) = Inr img"
      "run img (prompt (request_or_default request)) (max_tokens (request_or_default request))
      (temperature (request_or_default request))
      ((files w)(temp_path env (files w) \<mapsto> contents upload)) = (Inr r, fs)"
      "\<not> ObjectDetectionResult.success r"
    using detect_objects_with_valid[where run = run, OF that(1-3)] that(4) by (simp add: response_of_def)
  have b: "status_code (fst ?R) = 400" if "\<not> is_image_type (content_type upload)"
    using that by (simp add: detect_objects_with_bad_type)
  have c: "status_code (fst ?R) = 400"
    if "is_image_type (content_type upload)" "open_and_verify env (contents upload) = Inl e" for e
    using that by (simp add: detect_objects_with_bad_image)
  have d: "status_code (fst ?R) = 200"
    if "is_image_type (content_type upload)" "open_and_verify env (contents upload) = Inr img" for img
  proof -
    obtain outcome fs where "run img (prompt (request_or_default request))
      (max_tokens (request_or_default request)) (temperature (request_or_default request))
      ((files w)(temp_path env (files w) \<mapsto> contents upload)) = (outcome, fs)"
      by (cases "run img (prompt (request_or_default request))
      (max_tokens (request_or_default request)) (temperature (request_or_default request))
      ((files w)(temp_path env (files w) \<mapsto> contents upload))") blast
    from detect_objects_with_valid[where run = run, OF that this] show ?thesis
      by (simp split: sum.splits)
  qed
  have e: "(\<exists>e. open_and_verify env (contents upload) = Inl e) \<or>
           (\<exists>img. open_and_verify env (contents upload) = Inr img)"
    by (cases "open_and_verify env (contents upload)") auto
  show ?thesis
  proof (cases "is_image_type (content_type upload)")
    case False
    with b show ?thesis by simp
  next
    case True
    show ?thesis
    proof (cases "open_and_verify env (contents upload)")
      case (Inl e)
      with True c[OF True Inl] show ?thesis by simp
    next
      case (Inr img')
      with True d[OF True Inr] a show ?thesis by simp
    qed
  qed
qed

theorem C10_detection_failure_is_a_normal_response_witness:
  "fst (detect_objects_with failing_detector sample_env sample_file None sample_world) =
     Inr \<lparr>success = False, objects = None, response_text = None,
          error_message = Some (str ''Error loading model: no such model'')\<rparr> \<and>
   status_code (fst (detect_objects_with failing_detector sample_env sample_file None sample_world)) = 200 \<and>
   status_code (fst (detect_objects_with failing_detector sample_env
     \<lparr>content_type = Some (str ''text/plain''), contents = [255, 216, 255, 224]\<rparr> None
     sample_world)) = 400 \<and>
   status_code (fst (detect_objects_with failing_detector sample_env
     \<lparr>content_type = Some (str ''image/png''), contents = [1, 2, 3]\<rparr> None sample_world)) = 400"
proof -
  let ?fs = "(files sample_world)(temp_path sample_env (files sample_world) \<mapsto> contents sample_file)"
  have r: "failing_detector sample_image (prompt (request_or_default None))
      (max_tokens (request_or_default None)) (temperature (request_or_default None)) ?fs =
      (Inr (failure (str ''Error loading model: no such model'')), ?fs)"
    by (simp add: failing_detector_def)
  have f: "\<not> ObjectDetectionResult.success (failure (str ''Error loading model: no such model''))"
    by (simp add: failure_def)
  have t1: "\<not> is_image_type (content_type
      \<lparr>content_type = Some (str ''text/plain''), contents = [255, 216, 255, 224]\<rparr>)"
    by (simp add: is_image_type_def)
  have t3: "open_and_verify sample_env (contents \<lparr>content_type = Some (str ''image/png''), contents = [1, 2, 3]\<rparr>) =
      Inl (Exc OtherError (str ''cannot identify image file''))"
    by (simp add: open_and_verify_def sample_env_def)
  from C10_detection_failure_is_a_normal_response[where run = failing_detector
      and env = sample_env and upload = sample_file and request = None and w = sample_world
      and img = sample_image and r = "failure (str ''Error loading model: no such model'')"
      and fs = ?fs] sample_upload_valid r f
  have a: "fst (detect_objects_with failing_detector sample_env sample_file None sample_world) =
     Inr \<lparr>success = False, objects = None, response_text = None,
          error_message = Some (str ''Error loading model: no such model'')\<rparr> \<and>
   status_code (fst (detect_objects_with failing_detector sample_env sample_file None sample_world)) = 200"
    by (simp add: failure_def)
  from C10_detection_failure_is_a_normal_response[where run = failing_detector
      and env = sample_env
      and upload = "\<lparr>content_type = Some (str ''text/plain''), contents = [255, 216, 255, 224]\<rparr>"
      and request = None and w = sample_world] t1
  have b: "status_code (fst (detect_objects_with failing_detector sample_env
     \<lparr>content_type = Some (str ''text/plain''), contents = [255, 216, 255, 224]\<rparr> None
     sample_world)) = 400"
    by simp
  from C10_detection_failure_is_a_normal_response[where run = failing_detector
      and env = sample_env
      and upload = "\<lparr>content_type = Some (str ''image/png''), contents = [1, 2, 3]\<rparr>"
      and request = None and w = sample_world] t3
  have c: "status_code (fst (detect_objects_with failing_detector sample_env
     \<lparr>content_type = Some (str ''image/png''), contents = [1, 2, 3]\<rparr> None sample_world)) = 400"
    by simp
  from a b c show ?thesis by simp
qed

end
